theory Spec2Isabelle
  imports Complex_Main "HOL-Library.Word" "HOL-Library.Multiset"
begin

section \<open>JavaScript values, as the services use them\<close>

text \<open>
  The services under \<^verbatim>\<open>src/services\<close> work on parsed JSON: the records of a channel
  file, the argument object of a tool call, the parameter schema of a tool declaration.
  A value is one of the JSON shapes, or \<^verbatim>\<open>undefined\<close> (what reading a missing property
  gives). An object is the list of its own properties in \<^verbatim>\<open>Object.keys\<close> order.

  Conventions of the model, each a boundary of what the theorems below say:
  \<^item> a string is a list of 8-bit characters, read as the code units U+0000 to U+00FF;
  \<^item> a number is an exact rational, \<^verbatim>\<open>NaN\<close> or an infinity: IEEE rounding, overflow and
    the sign of zero are not modelled;
  \<^item> property reads see own properties only (no key is looked up on
    \<^verbatim>\<open>Object.prototype\<close>);
  \<^item> what the language leaves to the engine is a parameter (\<open>engine\<close> below).
\<close>

datatype jsval =
    JUndefined
  | JNull
  | JBool bool
  | JNum rat
  | JStr string
  | JArr "jsval list"
  | JObj "(string \<times> jsval) list"

type_synonym jsobject = "(string \<times> jsval) list"

datatype jsnum = NaN | Fin rat | PInf | NInf

datatype js_error = TypeError | SyntaxError | ProviderError

record engine =
  Number_toString :: "rat \<Rightarrow> string"
  Date_parse :: "string \<Rightarrow> int option"
  toLocaleDateString :: "jsval \<Rightarrow> string"

text \<open>
  \<open>Number_toString\<close> is the text of a number that is not an integer below \<open>10^21\<close>
  (the shortest digits that read back as the same double); \<open>Date_parse\<close> is
  \<^verbatim>\<open>Date.parse\<close>, in milliseconds, \<open>None\<close> for \<^verbatim>\<open>NaN\<close>; \<open>toLocaleDateString\<close> is the
  label \<^verbatim>\<open>new Date(v).toLocaleDateString([], {month, day, year})\<close>.
\<close>

subsection \<open>Characters and strings\<close>

definition is_space :: "char \<Rightarrow> bool" where
  "is_space c = ((of_char c :: nat) \<in> set [9, 10, 11, 12, 13, 32, 160])"

definition is_digit :: "char \<Rightarrow> bool" where
  "is_digit c = (48 \<le> (of_char c :: nat) \<and> (of_char c :: nat) \<le> 57)"

definition digit_val :: "char \<Rightarrow> nat" where
  "digit_val c = of_char c - 48"

definition digits_val :: "string \<Rightarrow> nat" where
  "digits_val ds = foldl (\<lambda>a c. 10 * a + digit_val c) 0 ds"

definition toLowerCase_char :: "char \<Rightarrow> char" where
  "toLowerCase_char c =
     (let n = (of_char c :: nat) in
      if 65 \<le> n \<and> n \<le> 90 then ''abcdefghijklmnopqrstuvwxyz'' ! (n - 65)
      else if 192 \<le> n \<and> n \<le> 222 \<and> n \<noteq> 215 then char_of (n + 32)
      else c)"

definition toLowerCase :: "string \<Rightarrow> string" where
  "toLowerCase s = map toLowerCase_char s"

definition trim :: "string \<Rightarrow> string" where
  "trim s = rev (dropWhile is_space (rev (dropWhile is_space s)))"

definition starts_with :: "string \<Rightarrow> string \<Rightarrow> bool" where
  "starts_with p s = (take (length p) s = p)"

fun includes_str :: "string \<Rightarrow> string \<Rightarrow> bool" where
  "includes_str [] p = (p = [])"
| "includes_str (c # cs) p = (starts_with p (c # cs) \<or> includes_str cs p)"

fun join :: "string \<Rightarrow> string list \<Rightarrow> string" where
  "join sep [] = []"
| "join sep [x] = x"
| "join sep (x # y # ys) = x @ sep @ join sep (y # ys)"

function show_nat :: "nat \<Rightarrow> string" where
  "show_nat n =
     (if n < 10 then [''0123456789'' ! n]
      else show_nat (n div 10) @ [''0123456789'' ! (n mod 10)])"
  by pat_completeness auto
termination
  by (relation "measure id") auto

subsection \<open>Conversions: truthiness, String, property keys, parseFloat, parseInt\<close>

fun truthy :: "jsval \<Rightarrow> bool" where
  "truthy JUndefined = False"
| "truthy JNull = False"
| "truthy (JBool b) = b"
| "truthy (JNum q) = (q \<noteq> 0)"
| "truthy (JStr s) = (s \<noteq> [])"
| "truthy (JArr xs) = True"
| "truthy (JObj kvs) = True"

definition nullish :: "jsval \<Rightarrow> bool" where
  "nullish v = (v = JUndefined \<or> v = JNull)"

definition numberToString :: "engine \<Rightarrow> rat \<Rightarrow> string" where
  "numberToString E q =
     (if of_int \<lfloor>q\<rfloor> = q \<and> \<bar>q\<bar> < 10 ^ 21
      then (if q < 0 then ''-'' @ show_nat (nat \<lfloor>- q\<rfloor>) else show_nat (nat \<lfloor>q\<rfloor>))
      else Number_toString E q)"

fun toStr :: "engine \<Rightarrow> jsval \<Rightarrow> string" where
  "toStr E JUndefined = ''undefined''"
| "toStr E JNull = ''null''"
| "toStr E (JBool b) = (if b then ''true'' else ''false'')"
| "toStr E (JNum q) = numberToString E q"
| "toStr E (JStr s) = s"
| "toStr E (JArr xs) =
     join '','' (map (\<lambda>x. if x = JUndefined \<or> x = JNull then [] else toStr E x) xs)"
| "toStr E (JObj kvs) = ''[object Object]''"

definition getp :: "jsobject \<Rightarrow> string \<Rightarrow> jsval" where
  "getp r k = (case map_of r k of Some v \<Rightarrow> v | None \<Rightarrow> JUndefined)"

definition get_by :: "engine \<Rightarrow> jsobject \<Rightarrow> jsval \<Rightarrow> jsval" where
  "get_by E r key = getp r (toStr E key)"

definition isNaN :: "jsnum \<Rightarrow> bool" where
  "isNaN n = (n = NaN)"

fun js_neg :: "jsnum \<Rightarrow> jsnum" where
  "js_neg NaN = NaN"
| "js_neg (Fin q) = Fin (- q)"
| "js_neg PInf = NInf"
| "js_neg NInf = PInf"

definition pow10 :: "int \<Rightarrow> rat" where
  "pow10 e = (if 0 \<le> e then 10 ^ nat e else 1 / 10 ^ nat (- e))"

definition exponent_digits :: "string \<Rightarrow> int" where
  "exponent_digits s = int (digits_val (takeWhile is_digit s))"

definition exponent_part :: "string \<Rightarrow> int" where
  "exponent_part s =
     (case s of
        [] \<Rightarrow> 0
      | c # r \<Rightarrow>
          if c = CHR ''e'' \<or> c = CHR ''E'' then
            (case r of
               [] \<Rightarrow> 0
             | d # r' \<Rightarrow>
                 if d = CHR ''+'' then exponent_digits r'
                 else if d = CHR ''-'' then - exponent_digits r'
                 else exponent_digits r)
          else 0)"

definition str_unsigned_decimal :: "string \<Rightarrow> jsnum" where
  "str_unsigned_decimal s =
     (if starts_with ''Infinity'' s then PInf
      else
        let ip = takeWhile is_digit s;
            r1 = dropWhile is_digit s;
            has_dot = (r1 \<noteq> [] \<and> hd r1 = CHR ''.'');
            fp = (if has_dot then takeWhile is_digit (tl r1) else []);
            r2 = (if has_dot then dropWhile is_digit (tl r1) else r1)
        in if ip = [] \<and> fp = [] then NaN
           else Fin ((of_nat (digits_val ip) + of_nat (digits_val fp) / 10 ^ length fp)
                     * pow10 (exponent_part r2)))"

definition parseFloat_str :: "string \<Rightarrow> jsnum" where
  "parseFloat_str s =
     (case dropWhile is_space s of
        [] \<Rightarrow> NaN
      | c # r \<Rightarrow>
          if c = CHR ''-'' then js_neg (str_unsigned_decimal r)
          else if c = CHR ''+'' then str_unsigned_decimal r
          else str_unsigned_decimal (c # r))"

definition parseFloat :: "engine \<Rightarrow> jsval \<Rightarrow> jsnum" where
  "parseFloat E v = (case v of JNum q \<Rightarrow> Fin q | _ \<Rightarrow> parseFloat_str (toStr E v))"

definition parseInt_digits :: "string \<Rightarrow> jsnum" where
  "parseInt_digits s =
     (let ds = takeWhile is_digit s in if ds = [] then NaN else Fin (of_nat (digits_val ds)))"

definition parseInt10_str :: "string \<Rightarrow> jsnum" where
  "parseInt10_str s =
     (case dropWhile is_space s of
        [] \<Rightarrow> NaN
      | c # r \<Rightarrow>
          if c = CHR ''-'' then js_neg (parseInt_digits r)
          else if c = CHR ''+'' then parseInt_digits r
          else parseInt_digits (c # r))"

definition parseInt10 :: "engine \<Rightarrow> jsval \<Rightarrow> jsnum" where
  "parseInt10 E v = parseInt10_str (toStr E v)"

text \<open>
  \<open>parseFloat\<close> reads the longest prefix that is a decimal literal, after leading white
  space: sign, digits, a fraction, an exponent; \<^verbatim>\<open>Infinity\<close> is a literal too. A number
  is converted to its text first, and that text reads back as the same number, which is
  the \<open>JNum\<close> case. \<open>parseInt10\<close> is \<^verbatim>\<open>parseInt(v, 10)\<close>: the digits after
  an optional sign.
\<close>

section \<open>jsonTools.js\<close>

subsection \<open>durationToSeconds\<close>

text \<open>
  \<^verbatim>\<open>str.match(/PT(?:(\d+)H)?(?:(\d+)M)?(?:(\d+)S)?/)\<close>: the search stops at the first
  \<^verbatim>\<open>PT\<close>, where the three optional groups always give a match. A group is taken when
  digits are followed by its letter. \<open>pt_search\<close> returns the text after the first
  \<^verbatim>\<open>PT\<close>; \<open>opt_group\<close> returns the captured digits and the rest.
\<close>

fun pt_search :: "string \<Rightarrow> string option" where
  "pt_search [] = None"
| "pt_search (c # cs) =
     (if starts_with ''PT'' (c # cs) then Some (drop 2 (c # cs)) else pt_search cs)"

definition opt_group :: "char \<Rightarrow> string \<Rightarrow> string option \<times> string" where
  "opt_group l s =
     (let ds = takeWhile is_digit s; r = dropWhile is_digit s
      in if ds \<noteq> [] \<and> r \<noteq> [] \<and> hd r = l then (Some ds, tl r) else (None, s))"

definition group_int :: "string option \<Rightarrow> nat" where
  "group_int g = (case g of None \<Rightarrow> 0 | Some ds \<Rightarrow> digits_val ds)"

definition ptMatch :: "string \<Rightarrow> (string option \<times> string option \<times> string option) option" where
  "ptMatch str =
     (case pt_search str of
        None \<Rightarrow> None
      | Some r0 \<Rightarrow>
          (let (h, r1) = opt_group (CHR ''H'') r0;
               (m, r2) = opt_group (CHR ''M'') r1;
               (s, r3) = opt_group (CHR ''S'') r2
           in Some (h, m, s)))"

text \<open>\<^verbatim>\<open>str.match(/^(?:(\d+):)?(\d+):(\d+)$/)\<close>: two or three runs of digits with colons
  between, and nothing else.\<close>

definition colonMatch :: "string \<Rightarrow> (string option \<times> string option \<times> string option) option" where
  "colonMatch str =
     (let d1 = takeWhile is_digit str; r1 = dropWhile is_digit str
      in if d1 = [] \<or> r1 = [] \<or> hd r1 \<noteq> CHR '':'' then None
         else
           let d2 = takeWhile is_digit (tl r1); r2 = dropWhile is_digit (tl r1)
           in if d2 = [] then None
              else if r2 = [] then Some (None, Some d1, Some d2)
              else if hd r2 \<noteq> CHR '':'' then None
              else
                let d3 = takeWhile is_digit (tl r2); r3 = dropWhile is_digit (tl r2)
                in if d3 \<noteq> [] \<and> r3 = [] then Some (Some d1, Some d2, Some d3) else None)"

definition hms :: "string option \<times> string option \<times> string option \<Rightarrow> jsnum" where
  "hms g = (case g of (h, m, s) \<Rightarrow>
     Fin (of_nat (group_int h * 3600 + group_int m * 60 + group_int s)))"

definition durationToSeconds :: "engine \<Rightarrow> jsval \<Rightarrow> jsnum" where
  "durationToSeconds E val =
     (if nullish val \<or> val = JStr [] then NaN
      else
        let n = parseFloat E val in
        if \<not> isNaN n then n
        else
          let str = toStr E val in
          (case ptMatch str of
             Some g \<Rightarrow> hms g
           | None \<Rightarrow>
               (case colonMatch str of
                  Some g \<Rightarrow> hms g
                | None \<Rightarrow> NaN)))"

subsection \<open>Number arithmetic\<close>

fun js_add :: "jsnum \<Rightarrow> jsnum \<Rightarrow> jsnum" where
  "js_add NaN y = NaN"
| "js_add x NaN = NaN"
| "js_add (Fin a) (Fin b) = Fin (a + b)"
| "js_add (Fin a) y = y"
| "js_add x (Fin b) = x"
| "js_add PInf PInf = PInf"
| "js_add NInf NInf = NInf"
| "js_add PInf NInf = NaN"
| "js_add NInf PInf = NaN"

definition js_sub :: "jsnum \<Rightarrow> jsnum \<Rightarrow> jsnum" where
  "js_sub x y = js_add x (js_neg y)"

fun js_sq :: "jsnum \<Rightarrow> jsnum" where
  "js_sq NaN = NaN"
| "js_sq (Fin a) = Fin (a * a)"
| "js_sq PInf = PInf"
| "js_sq NInf = PInf"

fun js_div :: "jsnum \<Rightarrow> jsnum \<Rightarrow> jsnum" where
  "js_div NaN y = NaN"
| "js_div x NaN = NaN"
| "js_div (Fin a) (Fin b) =
     (if b \<noteq> 0 then Fin (a / b) else if a = 0 then NaN else if 0 < a then PInf else NInf)"
| "js_div (Fin a) y = Fin 0"
| "js_div PInf (Fin b) = (if 0 \<le> b then PInf else NInf)"
| "js_div NInf (Fin b) = (if 0 \<le> b then NInf else PInf)"
| "js_div x y = NaN"

fun js_less :: "jsnum \<Rightarrow> jsnum \<Rightarrow> bool" where
  "js_less NaN y = False"
| "js_less x NaN = False"
| "js_less (Fin a) (Fin b) = (a < b)"
| "js_less x NInf = False"
| "js_less PInf y = False"
| "js_less NInf y = True"
| "js_less x PInf = True"

definition js_pos :: "jsnum \<Rightarrow> bool" where
  "js_pos n = js_less (Fin 0) n"

definition js_min2 :: "jsnum \<Rightarrow> jsnum \<Rightarrow> jsnum" where
  "js_min2 a b = (if isNaN a \<or> isNaN b then NaN else if js_less b a then b else a)"

definition js_max2 :: "jsnum \<Rightarrow> jsnum \<Rightarrow> jsnum" where
  "js_max2 a b = (if isNaN a \<or> isNaN b then NaN else if js_less a b then b else a)"

definition Math_min :: "jsnum list \<Rightarrow> jsnum" where
  "Math_min xs = foldl js_min2 PInf xs"

definition Math_max :: "jsnum list \<Rightarrow> jsnum" where
  "Math_max xs = foldl js_max2 NInf xs"

text \<open>
  \<^verbatim>\<open>Array.prototype.sort(cmp)\<close> is stable, and for a consistent comparator its result is
  the stable sort, which this insertion sort computes: an element moves behind its right
  neighbour only when the comparator is positive. (When a comparator is not consistent,
  as with \<^verbatim>\<open>NaN\<close> for some pairs only, the language leaves the order to the engine; the
  theorems below that speak of an order assume the comparator's values are numbers.)
\<close>

fun insert_js :: "('a \<Rightarrow> 'a \<Rightarrow> jsnum) \<Rightarrow> 'a \<Rightarrow> 'a list \<Rightarrow> 'a list" where
  "insert_js cmp x [] = [x]"
| "insert_js cmp x (y # ys) =
     (if js_pos (cmp x y) then y # insert_js cmp x ys else x # y # ys)"

definition sort_js :: "('a \<Rightarrow> 'a \<Rightarrow> jsnum) \<Rightarrow> 'a list \<Rightarrow> 'a list" where
  "sort_js cmp xs = foldr (insert_js cmp) xs []"

definition nth_opt :: "'a list \<Rightarrow> int \<Rightarrow> 'a option" where
  "nth_opt xs i = (if 0 \<le> i \<and> i < int (length xs) then Some (xs ! nat i) else None)"

subsection \<open>resolveField\<close>

definition is_sep :: "char \<Rightarrow> bool" where
  "is_sep c = (is_space c \<or> c = CHR ''_'' \<or> c = CHR ''-'')"

definition norm :: "string \<Rightarrow> string" where
  "norm s = filter (\<lambda>c. \<not> is_sep c) (toLowerCase s)"

definition resolveField :: "jsobject list \<Rightarrow> jsval \<Rightarrow> js_error + jsval" where
  "resolveField rows name =
     (if rows = [] \<or> \<not> truthy name then Inr name
      else
        let keys = map fst (hd rows) in
        (case name of
           JStr s \<Rightarrow>
             if s \<in> set keys then Inr name
             else (case find (\<lambda>k. norm k = norm s) keys of
                     Some k \<Rightarrow> if k \<noteq> [] then Inr (JStr k) else Inr name
                   | None \<Rightarrow> Inr name)
         | _ \<Rightarrow> Inl TypeError))"

text \<open>
  \<^verbatim>\<open>keys.includes(name)\<close> compares without conversion, so it holds only for a string that
  is a key. A name that is true, a non-zero number, an array or an object passes the
  guard \<^verbatim>\<open>!name\<close> and has no \<^verbatim>\<open>toLowerCase\<close>: \<^verbatim>\<open>norm(name)\<close> throws a TypeError.
  \<^verbatim>\<open>keys.find(...) || name\<close> gives the name when nothing is found, and also when the key
  found is the empty string.
\<close>

subsection \<open>median, fmt\<close>

definition nth_num :: "jsnum list \<Rightarrow> nat \<Rightarrow> jsnum" where
  "nth_num xs i = (if i < length xs then xs ! i else NaN)"

definition median :: "jsnum list \<Rightarrow> jsnum" where
  "median srt =
     (if length srt mod 2 = 0
      then js_div (js_add (nth_num srt (length srt div 2 - 1))
                          (nth_num srt (length srt div 2))) (Fin 2)
      else nth_num srt (length srt div 2))"

definition nearest4 :: "rat \<Rightarrow> rat" where
  "nearest4 x = of_int \<lfloor>x * 10000 + 1 / 2\<rfloor> / 10000"

definition toFixed4 :: "rat \<Rightarrow> rat" where
  "toFixed4 q = (if q < 0 then - nearest4 (- q) else nearest4 q)"

definition fmt :: "jsnum \<Rightarrow> jsnum" where
  "fmt n = (case n of Fin q \<Rightarrow> if of_int \<lfloor>q\<rfloor> = q then Fin q else Fin (toFixed4 q) | _ \<Rightarrow> n)"

text \<open>
  \<^verbatim>\<open>n.toFixed(4)\<close> takes the integer \<open>k\<close> with \<open>k / 10^4\<close> nearest to \<open>n\<close>, the larger
  one of two (in magnitude, the sign being set aside first), and \<^verbatim>\<open>+\<close> reads the digits
  back. \<^verbatim>\<open>NaN\<close> and the infinities print as their names and read back as themselves.
\<close>

subsection \<open>executeJsonTool\<close>

record stats =
  s_field :: jsval
  s_count :: nat
  s_mean :: jsnum
  s_median :: jsnum
  s_variance :: jsnum
  s_min :: jsnum
  s_max :: jsnum

text \<open>
  The result's \<^verbatim>\<open>std\<close> is \<^verbatim>\<open>fmt(Math.sqrt(variance))\<close>; a square root is not a
  rational, so the record keeps the variance it is taken from.
\<close>

record point =
  p_date :: jsval
  p_label :: string
  p_value :: jsnum
  p_title :: jsval

record chart =
  c_data :: "point list"
  c_metricField :: jsval
  c_dateField :: jsval

record video =
  v_title :: jsval
  v_thumbnail :: jsval
  v_url :: jsval

datatype tool_result =
    Error string
  | Stats stats
  | Chart chart
  | Video video

definition dquote :: string where
  "dquote = [CHR 0x22]"

definition available :: "jsobject list \<Rightarrow> string" where
  "available videos = join '', '' (map fst (hd videos))"

definition duration_like :: "jsval \<Rightarrow> js_error + bool" where
  "duration_like f =
     (case f of
        JStr s \<Rightarrow> Inr (includes_str (toLowerCase s) ''duration'' \<or> s = ''duration_iso'')
      | _ \<Rightarrow> Inl TypeError)"

definition duration_source :: "engine \<Rightarrow> jsobject \<Rightarrow> jsval \<Rightarrow> jsval" where
  "duration_source E r f =
     (if \<not> nullish (get_by E r f) then get_by E r f
      else if \<not> nullish (getp r ''duration'') then getp r ''duration''
      else getp r ''duration_iso'')"

definition js_sum :: "jsnum list \<Rightarrow> jsnum" where
  "js_sum vals = foldl js_add (Fin 0) vals"

definition stats_vals :: "engine \<Rightarrow> jsval \<Rightarrow> jsobject list \<Rightarrow> js_error + jsnum list" where
  "stats_vals E field videos =
     (let vals = map (\<lambda>r. parseFloat E (get_by E r field)) videos in
      if list_all isNaN vals then
        (case duration_like field of
           Inl e \<Rightarrow> Inl e
         | Inr d \<Rightarrow>
             Inr (if d then map (\<lambda>r. durationToSeconds E (duration_source E r field)) videos
                  else vals))
      else Inr vals)"

definition compute_stats_json :: "engine \<Rightarrow> jsobject \<Rightarrow> jsobject list \<Rightarrow> js_error + tool_result" where
  "compute_stats_json E args videos =
     (case resolveField videos (getp args ''field'') of
        Inl e \<Rightarrow> Inl e
      | Inr field \<Rightarrow>
          (case stats_vals E field videos of
             Inl e \<Rightarrow> Inl e
           | Inr vals1 \<Rightarrow>
               let vals = filter (\<lambda>v. \<not> isNaN v) vals1 in
               if vals = [] then
                 Inr (Error (''No numeric values in '' @ dquote @ toStr E field @ dquote
                             @ ''. Available: '' @ available videos))
               else
                 let mean = js_div (js_sum vals) (Fin (of_nat (length vals)));
                     srt = sort_js js_sub vals;
                     variance =
                       js_div (foldl (\<lambda>a b. js_add a (js_sq (js_sub b mean))) (Fin 0) vals)
                              (Fin (of_nat (length vals)))
                 in Inr (Stats \<lparr> s_field = field, s_count = length vals, s_mean = fmt mean,
                                  s_median = fmt (median srt), s_variance = variance,
                                  s_min = Math_min vals, s_max = Math_max vals \<rparr>)))"

definition timeClip :: "rat \<Rightarrow> jsnum" where
  "timeClip q =
     (if \<bar>q\<bar> \<le> 8640000000000000
      then Fin (of_int (if q < 0 then - \<lfloor>- q\<rfloor> else \<lfloor>q\<rfloor>)) else NaN)"

definition Date_getTime :: "engine \<Rightarrow> jsval \<Rightarrow> jsnum" where
  "Date_getTime E v =
     (case v of
        JUndefined \<Rightarrow> NaN
      | JNull \<Rightarrow> Fin 0
      | JBool b \<Rightarrow> Fin (if b then 1 else 0)
      | JNum q \<Rightarrow> timeClip q
      | _ \<Rightarrow> (case Date_parse E (toStr E v) of Some t \<Rightarrow> Fin (of_int t) | None \<Rightarrow> NaN))"

text \<open>
  \<open>Date_getTime E v\<close> is the time value of \<^verbatim>\<open>new Date(v)\<close>: a string (and an array or
  object, through its text) is parsed, any other value is converted to a number and
  clipped to the range of dates.
\<close>

definition metric_value :: "engine \<Rightarrow> jsval \<Rightarrow> jsobject \<Rightarrow> js_error + jsnum" where
  "metric_value E metricField v =
     (let metricVal = parseFloat E (get_by E v metricField) in
      if isNaN metricVal then
        (case duration_like metricField of
           Inl e \<Rightarrow> Inl e
         | Inr d \<Rightarrow>
             Inr (if d then durationToSeconds E (duration_source E v metricField) else metricVal))
      else Inr metricVal)"

definition plot_point :: "engine \<Rightarrow> jsval \<Rightarrow> jsval \<Rightarrow> jsobject \<Rightarrow> js_error + point option" where
  "plot_point E metricField dateField v =
     (case metric_value E metricField v of
        Inl e \<Rightarrow> Inl e
      | Inr metricVal \<Rightarrow>
          let dateVal = get_by E v dateField in
          if nullish dateVal \<or> (isNaN metricVal \<and> metricVal \<noteq> Fin 0) then Inr None
          else Inr (Some \<lparr> p_date = dateVal,
                            p_label = toLocaleDateString E dateVal,
                            p_value = (if isNaN metricVal then Fin 0 else metricVal),
                            p_title = (if truthy (getp v ''title'') then getp v ''title''
                                       else JStr []) \<rparr>))"

fun map_points :: "(jsobject \<Rightarrow> js_error + point option) \<Rightarrow> jsobject list \<Rightarrow> js_error + point list" where
  "map_points f [] = Inr []"
| "map_points f (v # vs) =
     (case f v of
        Inl e \<Rightarrow> Inl e
      | Inr p \<Rightarrow>
          (case map_points f vs of
             Inl e \<Rightarrow> Inl e
           | Inr ps \<Rightarrow> Inr (case p of None \<Rightarrow> ps | Some q \<Rightarrow> q # ps)))"

text \<open>
  \<open>map_points\<close> is \<^verbatim>\<open>videos.map(...).filter(Boolean)\<close>: the callback runs on the records
  in order, an exception in it ends the call, and the \<^verbatim>\<open>null\<close> entries are dropped.
\<close>

definition by_date :: "engine \<Rightarrow> point \<Rightarrow> point \<Rightarrow> jsnum" where
  "by_date E a b = js_sub (Date_getTime E (p_date a)) (Date_getTime E (p_date b))"

definition plot_metric_vs_time :: "engine \<Rightarrow> jsobject \<Rightarrow> jsobject list \<Rightarrow> js_error + tool_result" where
  "plot_metric_vs_time E args videos =
     (case resolveField videos (getp args ''metric_field'') of
        Inl e \<Rightarrow> Inl e
      | Inr metricField \<Rightarrow>
          (case (if truthy (getp args ''date_field'')
                 then resolveField videos (getp args ''date_field'')
                 else Inr (JStr ''release_date'')) of
             Inl e \<Rightarrow> Inl e
           | Inr dateField \<Rightarrow>
               (case map_points (plot_point E metricField dateField) videos of
                  Inl e \<Rightarrow> Inl e
                | Inr ps \<Rightarrow>
                    let data = sort_js (by_date E) ps in
                    if data = [] then
                      Inr (Error (''Could not plot. Metric: '' @ dquote @ toStr E metricField
                                  @ dquote @ '', date: '' @ dquote @ toStr E dateField @ dquote
                                  @ ''. Available: '' @ available videos))
                    else Inr (Chart \<lparr> c_data = data, c_metricField = metricField,
                                       c_dateField = dateField \<rparr>))))"

definition view_count_num :: "engine \<Rightarrow> jsobject \<Rightarrow> jsnum" where
  "view_count_num E v =
     (let n = parseInt10 E (getp v ''view_count'') in if isNaN n \<or> n = Fin 0 then Fin 0 else n)"

definition ordinal_suffixed :: "string \<Rightarrow> bool" where
  "ordinal_suffixed sel =
     (takeWhile is_digit sel \<noteq> []
      \<and> dropWhile is_digit sel \<in> set [[], ''st'', ''nd'', ''rd'', ''th''])"

fun find_title :: "string \<Rightarrow> jsobject list \<Rightarrow> js_error + jsobject option" where
  "find_title sel [] = Inr None"
| "find_title sel (v # vs) =
     (case (if truthy (getp v ''title'') then getp v ''title'' else JStr []) of
        JStr t \<Rightarrow> if includes_str (toLowerCase t) sel then Inr (Some v) else find_title sel vs
      | _ \<Rightarrow> Inl TypeError)"

definition select_video :: "engine \<Rightarrow> string \<Rightarrow> jsobject list \<Rightarrow> js_error + jsobject option" where
  "select_video E sel videos =
     (if sel = ''most viewed'' \<or> sel = ''most viewed video'' then
        Inr (nth_opt (sort_js (\<lambda>a b. js_sub (view_count_num E b) (view_count_num E a)) videos) 0)
      else if sel = ''least viewed'' \<or> sel = ''least viewed video'' then
        Inr (nth_opt (sort_js (\<lambda>a b. js_sub (view_count_num E a) (view_count_num E b)) videos) 0)
      else if sel \<in> set [''first'', ''1st'', ''1''] then Inr (nth_opt videos 0)
      else if sel \<in> set [''second'', ''2nd'', ''2''] then Inr (nth_opt videos 1)
      else if sel \<in> set [''third'', ''3rd'', ''3''] then Inr (nth_opt videos 2)
      else if ordinal_suffixed sel then
        Inr (nth_opt videos (int (digits_val (takeWhile is_digit sel)) - 1))
      else find_title sel videos)"

definition play_video :: "engine \<Rightarrow> jsobject \<Rightarrow> jsobject list \<Rightarrow> js_error + tool_result" where
  "play_video E args videos =
     (let sel = trim (toLowerCase (toStr E (if truthy (getp args ''video_selector'')
                                             then getp args ''video_selector'' else JStr [])))
      in case select_video E sel videos of
           Inl e \<Rightarrow> Inl e
         | Inr None \<Rightarrow>
             Inr (Error (''Video not found for '' @ dquote @ toStr E (getp args ''video_selector'')
                         @ dquote @ ''. Try '' @ dquote @ ''first'' @ dquote @ '', '' @ dquote
                         @ ''most viewed'' @ dquote @ '', or a title keyword.''))
         | Inr (Some v) \<Rightarrow>
             Inr (Video \<lparr> v_title = (if truthy (getp v ''title'') then getp v ''title''
                                       else JStr ''Untitled''),
                           v_thumbnail = (if truthy (getp v ''thumbnail_url'')
                                          then getp v ''thumbnail_url'' else JNull),
                           v_url = (if truthy (getp v ''video_url'') then getp v ''video_url''
                                    else JStr (''https://www.youtube.com/watch?v=''
                                               @ toStr E (getp v ''video_id''))) \<rparr>))"

text \<open>
  The selector patterns are anchored at both ends, so each is a test of the whole
  trimmed, lower-cased selector; \<^verbatim>\<open>/^(\d+)(st|nd|rd|th)?$/\<close> is \<open>ordinal_suffixed\<close>, and
  \<^verbatim>\<open>sel.match(/\d+/)[0]\<close> is then the leading run of digits. \<^verbatim>\<open>videos[i]\<close> outside
  the array is \<^verbatim>\<open>undefined\<close> (\<open>None\<close>). In \<^verbatim>\<open>find\<close>, a title that is a non-zero
  number, true, an array or an object has no \<^verbatim>\<open>toLowerCase\<close>: TypeError.
\<close>

definition executeJsonTool ::
  "engine \<Rightarrow> string \<Rightarrow> jsobject \<Rightarrow> jsobject list option \<Rightarrow> js_error + tool_result" where
  "executeJsonTool E toolName args videos =
     (case videos of
        None \<Rightarrow>
          Inr (Error ''No channel JSON data loaded. Please drag a JSON file into the chat first.'')
      | Some vs \<Rightarrow>
          if vs = [] then
            Inr (Error ''No channel JSON data loaded. Please drag a JSON file into the chat first.'')
          else if toolName = ''compute_stats_json'' then compute_stats_json E args vs
          else if toolName = ''plot_metric_vs_time'' then plot_metric_vs_time E args vs
          else if toolName = ''play_video'' then play_video E args vs
          else Inr (Error (''Unknown tool: '' @ toolName)))"

text \<open>
  \<open>videos\<close> is \<open>None\<close> when the third argument is not an array; its elements are taken
  to be objects, and \<open>args\<close> to be an object, as a parsed channel file and a parsed tool
  call give them.
\<close>

section \<open>Properties\<close>

subsection \<open>durationToSeconds\<close>

text \<open>
  C4. \<^verbatim>\<open>durationToSeconds("PT1H2M3S")\<close> is 3723, as the specification says. The two
  colon forms are not: \<^verbatim>\<open>parseFloat\<close> comes first and reads the digits before the
  first colon, so \<^verbatim>\<open>"1:02:03"\<close> gives 1 and \<^verbatim>\<open>"2:03"\<close> gives 2, and the colon pattern
  below it is never reached by a string that matches it.
\<close>

theorem durationToSeconds_examples:
  "durationToSeconds E (JStr ''PT1H2M3S'') = Fin 3723
   \<and> durationToSeconds E (JStr ''1:02:03'') = Fin 1
   \<and> durationToSeconds E (JStr ''2:03'') = Fin 2"
  apply (simp add: durationToSeconds_def nullish_def parseFloat_def parseFloat_str_def is_space_def str_unsigned_decimal_def starts_with_def is_digit_def isNaN_def ptMatch_def opt_group_def hms_def group_int_def digits_val_def digit_val_def pow10_def exponent_part_def)
  done

subsection \<open>Evaluation on concrete inputs\<close>


definition abc_videos :: "jsobject list" where
  "abc_videos =
     [[(''title'', JStr ''A''), (''view_count'', JNum 10)],
      [(''title'', JStr ''B''), (''view_count'', JNum 30)],
      [(''title'', JStr ''C''), (''view_count'', JNum 20)]]"


definition not_found :: "string \<Rightarrow> tool_result" where
  "not_found sel =
     Error (''Video not found for '' @ dquote @ sel @ dquote @ ''. Try '' @ dquote @ ''first''
            @ dquote @ '', '' @ dquote @ ''most viewed'' @ dquote @ '', or a title keyword.'')"


lemmas eval_chars =
  is_space_def is_digit_def digit_val_def digits_val_def toLowerCase_def toLowerCase_char_def
  trim_def starts_with_def

lemmas eval_parseInt =
  parseInt10_def parseInt10_str_def parseInt_digits_def numberToString_def

lemma view_count_num_literal [simp]:
  "view_count_num E [(''title'', t), (''view_count'', JNum 1)] = Fin 1"
  "view_count_num E [(''title'', t), (''view_count'', JNum 5)] = Fin 5"
  "view_count_num E [(''title'', t), (''view_count'', JNum 10)] = Fin 10"
  "view_count_num E [(''title'', t), (''view_count'', JNum 20)] = Fin 20"
  "view_count_num E [(''title'', t), (''view_count'', JNum 30)] = Fin 30"
  by (simp_all add: view_count_num_def getp_def isNaN_def eval_parseInt eval_chars)

lemma select_abc:
  "select_video E ''most viewed'' abc_videos = Inr (Some (abc_videos ! 1))"
  "select_video E ''first'' abc_videos = Inr (Some (abc_videos ! 0))"
  "select_video E ''third'' abc_videos = Inr (Some (abc_videos ! 2))"
  "select_video E ''zzz'' abc_videos = Inr None"
  by (simp_all add: select_video_def abc_videos_def sort_js_def js_sub_def js_pos_def
      nth_opt_def ordinal_suffixed_def getp_def eval_chars)


lemma selector_text:
  "trim (toLowerCase (toStr E (if truthy (getp [(''video_selector'', JStr s)] ''video_selector'')
       then getp [(''video_selector'', JStr s)] ''video_selector'' else JStr []))) =
   trim (toLowerCase s)"
  by (simp add: getp_def toLowerCase_def trim_def)

lemma play_video_string:
  "play_video E [(''video_selector'', JStr s)] vs =
     (case select_video E (trim (toLowerCase s)) vs of
        Inl e \<Rightarrow> Inl e
      | Inr None \<Rightarrow> Inr (not_found s)
      | Inr (Some v) \<Rightarrow>
          Inr (Video \<lparr> v_title = (if truthy (getp v ''title'') then getp v ''title''
                                    else JStr ''Untitled''),
                        v_thumbnail = (if truthy (getp v ''thumbnail_url'')
                                       then getp v ''thumbnail_url'' else JNull),
                        v_url = (if truthy (getp v ''video_url'') then getp v ''video_url''
                                 else JStr (''https://www.youtube.com/watch?v=''
                                            @ toStr E (getp v ''video_id''))) \<rparr>))"
  unfolding play_video_def selector_text Let_def not_found_def
  by (simp add: getp_def split: sum.splits option.splits)

lemma selectors_lower:
  "trim (toLowerCase ''most viewed'') = ''most viewed''"
  "trim (toLowerCase ''first'') = ''first''"
  "trim (toLowerCase ''third'') = ''third''"
  "trim (toLowerCase ''zzz'') = ''zzz''"
  "trim (toLowerCase ''viewed'') = ''viewed''"
  by (simp_all add: eval_chars)


subsection \<open>select-record (play_video)\<close>


subsection \<open>User-input errors of executeJsonTool\<close>

lemma parseFloat_undefined [simp]: "parseFloat E JUndefined = NaN"
  by (simp add: parseFloat_def parseFloat_str_def str_unsigned_decimal_def eval_chars)

lemma parseFloat_title [simp]:
  "parseFloat E (JStr ''A'') = NaN" "parseFloat E (JStr ''B'') = NaN"
  "parseFloat E (JStr ''C'') = NaN"
  by (simp_all add: parseFloat_def parseFloat_str_def str_unsigned_decimal_def eval_chars)

lemma stats_missing_field: "compute_stats_json E [] abc_videos = Inl TypeError"
  by (simp add: compute_stats_json_def resolveField_def getp_def get_by_def stats_vals_def
      abc_videos_def isNaN_def duration_like_def)

lemma plot_missing_field: "plot_metric_vs_time E [] abc_videos = Inl TypeError"
  by (simp add: plot_metric_vs_time_def resolveField_def getp_def get_by_def plot_point_def
      metric_value_def abc_videos_def isNaN_def duration_like_def)

lemma stats_unknown_field:
  "compute_stats_json E [(''field'', JStr ''title'')] abc_videos =
     Inr (Error (''No numeric values in '' @ dquote @ ''title'' @ dquote
                 @ ''. Available: title, view_count''))"
  by (simp add: compute_stats_json_def resolveField_def getp_def get_by_def stats_vals_def
      abc_videos_def isNaN_def duration_like_def available_def eval_chars)

text \<open>
  C3. The structured errors are returned where the claim says: no record array or an
  empty one, a field with no numeric values (the message lists the fields of the first
  record), a selector that matches nothing (the message gives example selectors), an
  unknown tool. A missing required field argument is not among them. With
  \<^verbatim>\<open>args = {}\<close>, \<^verbatim>\<open>resolveField\<close> returns \<^verbatim>\<open>undefined\<close>, every
  \<^verbatim>\<open>parseFloat(r[undefined])\<close> is \<^verbatim>\<open>NaN\<close>, and \<^verbatim>\<open>field.toLowerCase()\<close> throws a
  TypeError, in \<^verbatim>\<open>compute_stats_json\<close> and in \<^verbatim>\<open>plot_metric_vs_time\<close> alike.
\<close>

theorem executeJsonTool_missing_field_throws:
  "executeJsonTool E ''compute_stats_json'' [] (Some abc_videos) = Inl TypeError
   \<and> executeJsonTool E ''plot_metric_vs_time'' [] (Some abc_videos) = Inl TypeError
   \<and> executeJsonTool E name args None
     = Inr (Error ''No channel JSON data loaded. Please drag a JSON file into the chat first.'')
   \<and> executeJsonTool E name args (Some [])
     = Inr (Error ''No channel JSON data loaded. Please drag a JSON file into the chat first.'')
   \<and> executeJsonTool E ''compute_stats_json'' [(''field'', JStr ''title'')] (Some abc_videos)
     = Inr (Error (''No numeric values in '' @ dquote @ ''title'' @ dquote
                   @ ''. Available: title, view_count''))
   \<and> executeJsonTool E ''play_video'' [(''video_selector'', JStr ''zzz'')] (Some abc_videos)
     = Inr (not_found ''zzz'')
   \<and> executeJsonTool E ''nope'' args (Some abc_videos) = Inr (Error ''Unknown tool: nope'')"
proof -
  have ne: "abc_videos \<noteq> []"
    by (simp add: abc_videos_def)
  have zzz: "play_video E [(''video_selector'', JStr ''zzz'')] abc_videos = Inr (not_found ''zzz'')"
    unfolding play_video_string selectors_lower select_abc by simp
  show ?thesis
    by (simp add: executeJsonTool_def ne stats_missing_field plot_missing_field
        stats_unknown_field zzz)
qed

subsection \<open>Field resolution\<close>






subsection \<open>The sort, the extrema and the rounding\<close>























subsection \<open>compute_stats_json\<close>












subsection \<open>plot_metric_vs_time\<close>























section \<open>Chat.js: the routing decision of handleSend\<close>

subsection \<open>The keyword patterns\<close>

text \<open>
  Both patterns have the shape \<^verbatim>\<open>/\b(alt1|alt2|...)\b/i\<close>, where an alternative is a
  run of literal characters and, in the Python-only set, \<^verbatim>\<open>.?\<close>. \<^verbatim>\<open>test\<close> holds when
  some position of the text has a word boundary, a match of some alternative and a word
  boundary again. A word character is a letter, a digit or the underscore; \<^verbatim>\<open>.\<close> is any
  character but a line terminator; with the flag \<^verbatim>\<open>i\<close> a letter of the pattern matches
  itself in either case and nothing else.
\<close>

datatype re_item = Lit char | OptAny

definition is_word :: "char \<Rightarrow> bool" where
  "is_word c =
     (let n = (of_char c :: nat) in
      (48 \<le> n \<and> n \<le> 57) \<or> (65 \<le> n \<and> n \<le> 90) \<or> n = 95 \<or> (97 \<le> n \<and> n \<le> 122))"

definition is_word_opt :: "char option \<Rightarrow> bool" where
  "is_word_opt c = (case c of None \<Rightarrow> False | Some d \<Rightarrow> is_word d)"

definition head_opt :: "string \<Rightarrow> char option" where
  "head_opt s = (case s of [] \<Rightarrow> None | c # cs \<Rightarrow> Some c)"

definition boundary :: "char option \<Rightarrow> string \<Rightarrow> bool" where
  "boundary prev s = (is_word_opt prev \<noteq> is_word_opt (head_opt s))"

definition line_terminator :: "char \<Rightarrow> bool" where
  "line_terminator c = ((of_char c :: nat) = 10 \<or> (of_char c :: nat) = 13)"

definition ci_eq :: "char \<Rightarrow> char \<Rightarrow> bool" where
  "ci_eq d c = (toLowerCase_char d = toLowerCase_char c)"

fun match_items :: "re_item list \<Rightarrow> char option \<Rightarrow> string \<Rightarrow> (char option \<times> string) list" where
  "match_items [] prev s = [(prev, s)]"
| "match_items (Lit c # ps) prev s =
     (case s of
        [] \<Rightarrow> []
      | d # r \<Rightarrow> if ci_eq d c then match_items ps (Some d) r else [])"
| "match_items (OptAny # ps) prev s =
     (case s of
        [] \<Rightarrow> []
      | d # r \<Rightarrow> if line_terminator d then [] else match_items ps (Some d) r)
     @ match_items ps prev s"

definition match_here :: "re_item list list \<Rightarrow> char option \<Rightarrow> string \<Rightarrow> bool" where
  "match_here alts prev s =
     (boundary prev s
      \<and> list_ex (\<lambda>alt. list_ex (\<lambda>(p, r). boundary p r) (match_items alt prev s)) alts)"

fun search :: "re_item list list \<Rightarrow> char option \<Rightarrow> string \<Rightarrow> bool" where
  "search alts prev [] = match_here alts prev []"
| "search alts prev (c # cs) = (match_here alts prev (c # cs) \<or> search alts (Some c) cs)"

definition regex_test :: "re_item list list \<Rightarrow> string \<Rightarrow> bool" where
  "regex_test alts text = search alts None text"

definition lit :: "string \<Rightarrow> re_item list" where
  "lit w = map Lit w"

definition CODE_KEYWORDS :: "re_item list list" where
  "CODE_KEYWORDS =
     [lit ''plot'', lit ''chart'', lit ''graph'', lit ''analyz'', lit ''statistic'',
      lit ''regression'', lit ''correlat'', lit ''histogram'', lit ''visualiz'',
      lit ''calculat'', lit ''compute'', lit ''run code'', lit ''write code'', lit ''execute'',
      lit ''pandas'', lit ''numpy'', lit ''matplotlib'', lit ''csv'', lit ''data'']"

definition PYTHON_ONLY_KEYWORDS :: "re_item list list" where
  "PYTHON_ONLY_KEYWORDS =
     [lit ''regression'', lit ''scatter'', lit ''histogram'', lit ''seaborn'',
      lit ''matplotlib'', lit ''numpy'', lit ''time'' @ [OptAny] @ lit ''series'',
      lit ''heatmap'', lit ''box'' @ [OptAny] @ lit ''plot'', lit ''violin'', lit ''distribut'',
      lit ''linear'' @ [OptAny] @ lit ''model'', lit ''logistic'', lit ''forecast'',
      lit ''trend'' @ [OptAny] @ lit ''line'']"

subsection \<open>Mode selection\<close>

text \<open>
  The state the routing block of \<^verbatim>\<open>handleSend\<close> reads. Each field says whether the
  React state of that name is set (not \<^verbatim>\<open>null\<close>): the chip of a CSV or JSON file dropped
  for this turn (\<open>csvContext\<close>, \<open>jsonContext\<close>), and the parsed rows or records kept for
  the session (\<open>sessionCsvRows\<close>, \<open>sessionJsonData\<close>). \<open>text\<close> is the trimmed input.
\<close>

record chat_state =
  csvContext :: bool
  sessionCsvRows :: bool
  jsonContext :: bool
  sessionJsonData :: bool

datatype mode = JsonTools | CsvTools | CodeExecution | Search

record routing =
  useJsonTools :: bool
  useTools :: bool
  useCodeExecution :: bool
  needsBase64 :: bool

definition route :: "string \<Rightarrow> chat_state \<Rightarrow> routing" where
  "route text st =
     (let wantPythonOnly = regex_test PYTHON_ONLY_KEYWORDS text;
          wantCode = (regex_test CODE_KEYWORDS text \<and> \<not> sessionCsvRows st);
          capturedCsv = csvContext st;
          needs = (capturedCsv \<and> wantPythonOnly);
          json = (sessionJsonData st \<and> \<not> wantCode);
          tools = (sessionCsvRows st \<and> \<not> wantPythonOnly \<and> \<not> wantCode \<and> \<not> capturedCsv
                   \<and> \<not> json);
          code = (wantPythonOnly \<or> (wantCode \<and> \<not> json))
      in \<lparr> useJsonTools = json, useTools = tools, useCodeExecution = code, needsBase64 = needs \<rparr>)"

text \<open>
  The dispatch that follows: the structured-record tools, else the tabular tools, else
  \<^verbatim>\<open>streamChat\<close> with or without code execution.
\<close>

definition mode_of :: "routing \<Rightarrow> mode" where
  "mode_of r =
     (if useJsonTools r then JsonTools
      else if useTools r then CsvTools
      else if useCodeExecution r then CodeExecution
      else Search)"

definition turn_mode :: "string \<Rightarrow> chat_state \<Rightarrow> mode" where
  "turn_mode text st = mode_of (route text st)"

subsection \<open>The claim's words\<close>

definition contains_word :: "string \<Rightarrow> string \<Rightarrow> bool" where
  "contains_word w text =
     (\<exists>pre post. text = pre @ w @ post
        \<and> (pre = [] \<or> \<not> is_word (last pre)) \<and> (post = [] \<or> \<not> is_word (hd post)))"

definition tabular_active :: "chat_state \<Rightarrow> bool" where
  "tabular_active st = (sessionCsvRows st \<or> csvContext st)"

definition structured_active :: "chat_state \<Rightarrow> bool" where
  "structured_active st = (sessionJsonData st \<or> jsonContext st)"

text \<open>A session with rows loaded on an earlier turn, and nothing else.\<close>

definition csv_session :: chat_state where
  "csv_session = \<lparr> csvContext = False, sessionCsvRows = True, jsonContext = False,
                   sessionJsonData = False \<rparr>"

definition json_session :: chat_state where
  "json_session = \<lparr> csvContext = False, sessionCsvRows = False, jsonContext = False,
                    sessionJsonData = True \<rparr>"

subsection \<open>Routing\<close>

lemma match_items_lit:
  "w \<noteq> [] \<Longrightarrow> (Some (last w), post) \<in> set (match_items (lit w) prev (w @ post))"
proof (induction w arbitrary: prev)
  case Nil
  then show ?case by simp
next
  case (Cons c w)
  show ?case
  proof (cases "w = []")
    case True
    then show ?thesis
      by (simp add: lit_def ci_eq_def)
  next
    case False
    with Cons.IH [of "Some c"] show ?thesis
      by (simp add: lit_def ci_eq_def)
  qed
qed

lemma search_append:
  "match_here alts (if pre = [] then prev else Some (last pre)) s \<Longrightarrow> search alts prev (pre @ s)"
proof (induction pre arbitrary: prev)
  case Nil
  then show ?case
    by (cases s) simp_all
next
  case (Cons c pre)
  have "search alts (Some c) (pre @ s)"
  proof (rule Cons.IH)
    from Cons.prems show "match_here alts (if pre = [] then Some c else Some (last pre)) s"
      by (cases "pre = []") simp_all
  qed
  then show ?case
    by simp
qed

lemma word_matches:
  assumes "lit w \<in> set alts" and "w \<noteq> []" and "is_word (hd w)" and "is_word (last w)"
    and "contains_word w text"
  shows "regex_test alts text"
proof -
  from assms(5) obtain pre post where
    parts: "text = pre @ w @ post" and pre: "pre = [] \<or> \<not> is_word (last pre)"
    and post: "post = [] \<or> \<not> is_word (hd post)"
    unfolding contains_word_def by blast
  let ?prev = "if pre = [] then None else Some (last pre)"
  from assms(2) obtain c w' where w: "w = c # w'"
    by (cases w) auto
  from pre assms(3) w have b1: "boundary ?prev (w @ post)"
    by (auto simp: boundary_def is_word_opt_def head_opt_def)
  from post assms(4) have b2: "boundary (Some (last w)) post"
    by (cases post) (auto simp: boundary_def is_word_opt_def head_opt_def)
  have "(Some (last w), post) \<in> set (match_items (lit w) ?prev (w @ post))"
    using assms(2) by (rule match_items_lit)
  with b2 have "list_ex (\<lambda>(p, r). boundary p r) (match_items (lit w) ?prev (w @ post))"
    unfolding list_ex_iff by blast
  with assms(1)
  have "list_ex (\<lambda>alt. list_ex (\<lambda>(p, r). boundary p r) (match_items alt ?prev (w @ post))) alts"
    unfolding list_ex_iff by blast
  with b1 have "match_here alts ?prev (w @ post)"
    by (simp only: match_here_def simp_thms)
  then have "search alts None (pre @ w @ post)"
    by (intro search_append) simp
  then show ?thesis
    by (simp add: regex_test_def parts)
qed

lemma histogram_python_only:
  "contains_word ''histogram'' text \<Longrightarrow> regex_test PYTHON_ONLY_KEYWORDS text"
  by (rule word_matches [of "''histogram''"]) (simp_all add: PYTHON_ONLY_KEYWORDS_def is_word_def)

lemmas eval_regex =
  regex_test_def lit_def match_here_def boundary_def is_word_opt_def head_opt_def is_word_def
  ci_eq_def toLowerCase_char_def line_terminator_def

lemma scatter_keywords:
  "\<not> regex_test CODE_KEYWORDS ''scatter''" "regex_test PYTHON_ONLY_KEYWORDS ''scatter''"
  by (simp_all add: CODE_KEYWORDS_def PYTHON_ONLY_KEYWORDS_def eval_regex)

lemma average_keywords:
  "\<not> regex_test CODE_KEYWORDS ''what's the average views''"
  "\<not> regex_test PYTHON_ONLY_KEYWORDS ''what's the average views''"
  by (simp_all add: CODE_KEYWORDS_def PYTHON_ONLY_KEYWORDS_def eval_regex)

lemma plot_keywords:
  "regex_test CODE_KEYWORDS ''plot the views''"
  "\<not> regex_test PYTHON_ONLY_KEYWORDS ''plot the views''"
  by (simp_all add: CODE_KEYWORDS_def PYTHON_ONLY_KEYWORDS_def eval_regex)

text \<open>
  C1, as the code has it. A text that contains the word \<^verbatim>\<open>histogram\<close> is routed to code
  execution whenever at most one attachment context is active. With rows from an
  earlier turn, no CSV dropped for this turn and no structured-record context, the turn
  goes to the tabular tools exactly when the text matches no Python-only keyword, and to
  code execution when it matches one; the code-intent set \<open>CODE_KEYWORDS\<close> plays no part
  there, because \<open>wantCode\<close> is false as soon as rows are loaded.
\<close>

theorem turn_mode_routing:
  "(contains_word ''histogram'' text \<and> \<not> (tabular_active st \<and> structured_active st)
      \<longrightarrow> turn_mode text st = CodeExecution)
   \<and> (sessionCsvRows st \<and> \<not> csvContext st \<and> \<not> structured_active st
        \<and> \<not> regex_test PYTHON_ONLY_KEYWORDS text
      \<longrightarrow> turn_mode text st = CsvTools)
   \<and> (sessionCsvRows st \<and> \<not> csvContext st \<and> \<not> structured_active st
        \<and> regex_test PYTHON_ONLY_KEYWORDS text
      \<longrightarrow> turn_mode text st = CodeExecution)"
proof (intro conjI impI)
  assume h: "contains_word ''histogram'' text \<and> \<not> (tabular_active st \<and> structured_active st)"
  then have py: "regex_test PYTHON_ONLY_KEYWORDS text"
    by (simp add: histogram_python_only)
  from h have code: "regex_test CODE_KEYWORDS text"
    by (intro word_matches [of "''histogram''"]) (simp_all add: CODE_KEYWORDS_def is_word_def)
  from h have "\<not> (sessionCsvRows st \<and> sessionJsonData st)"
    by (auto simp: tabular_active_def structured_active_def)
  with py code show "turn_mode text st = CodeExecution"
    by (auto simp: turn_mode_def mode_of_def route_def Let_def)
next
  assume "sessionCsvRows st \<and> \<not> csvContext st \<and> \<not> structured_active st
            \<and> \<not> regex_test PYTHON_ONLY_KEYWORDS text"
  then show "turn_mode text st = CsvTools"
    by (simp add: turn_mode_def mode_of_def route_def Let_def structured_active_def)
next
  assume "sessionCsvRows st \<and> \<not> csvContext st \<and> \<not> structured_active st
            \<and> regex_test PYTHON_ONLY_KEYWORDS text"
  then show "turn_mode text st = CodeExecution"
    by (simp add: turn_mode_def mode_of_def route_def Let_def structured_active_def)
qed

theorem turn_mode_routing_witness:
  "contains_word ''histogram'' ''show a histogram of views''
   \<and> turn_mode ''show a histogram of views'' csv_session = CodeExecution
   \<and> turn_mode ''show a histogram of views'' json_session = CodeExecution
   \<and> \<not> regex_test PYTHON_ONLY_KEYWORDS ''what's the average views''
   \<and> turn_mode ''what's the average views'' csv_session = CsvTools
   \<and> regex_test CODE_KEYWORDS ''plot the views''
   \<and> turn_mode ''plot the views'' csv_session = CsvTools
   \<and> turn_mode ''scatter'' csv_session = CodeExecution"
proof -
  have "''show a histogram of views'' = ''show a '' @ ''histogram'' @ '' of views''"
    by simp
  then have word: "contains_word ''histogram'' ''show a histogram of views''"
    unfolding contains_word_def
    by (intro exI [of _ "''show a ''"] exI [of _ "'' of views''"]) (simp add: is_word_def)
  have one: "\<not> (tabular_active csv_session \<and> structured_active csv_session)"
    "\<not> (tabular_active json_session \<and> structured_active json_session)"
    by (simp_all add: tabular_active_def structured_active_def csv_session_def json_session_def)
  have prior: "sessionCsvRows csv_session \<and> \<not> csvContext csv_session
                \<and> \<not> structured_active csv_session"
    by (simp add: structured_active_def csv_session_def)
  note r = turn_mode_routing [of _ csv_session]
  from word one(1) r [THEN conjunct1]
  have "turn_mode ''show a histogram of views'' csv_session = CodeExecution"
    by blast
  moreover from word one(2) turn_mode_routing [of _ json_session, THEN conjunct1]
  have "turn_mode ''show a histogram of views'' json_session = CodeExecution"
    by blast
  moreover from prior average_keywords(2) r [THEN conjunct2, THEN conjunct1]
  have "turn_mode ''what's the average views'' csv_session = CsvTools"
    by blast
  moreover from prior plot_keywords(2) r [THEN conjunct2, THEN conjunct1]
  have "turn_mode ''plot the views'' csv_session = CsvTools"
    by blast
  moreover from prior scatter_keywords(2) r [THEN conjunct2, THEN conjunct2]
  have "turn_mode ''scatter'' csv_session = CodeExecution"
    by blast
  ultimately show ?thesis
    using word average_keywords(2) plot_keywords(1) by blast
qed

text \<open>
  The claim as stated fails on the text \<^verbatim>\<open>scatter\<close>: it matches no code-intent keyword,
  the rows are from an earlier turn and no structured-record context is active, and the
  turn is routed to code execution, not to the tabular tools.
\<close>

theorem turn_mode_scatter_counterexample:
  "\<not> regex_test CODE_KEYWORDS ''scatter''
   \<and> sessionCsvRows csv_session \<and> \<not> csvContext csv_session
   \<and> \<not> structured_active csv_session
   \<and> turn_mode ''scatter'' csv_session = CodeExecution
   \<and> turn_mode ''scatter'' csv_session \<noteq> CsvTools"
  by (simp add: scatter_keywords turn_mode_def mode_of_def route_def Let_def
      structured_active_def csv_session_def)

section \<open>gemini.js: the tool schema adapter\<close>

text \<open>
  \<^verbatim>\<open>{ ...x }\<close> copies the own enumerable properties of \<open>x\<close>: those of an object, the
  indexed elements of an array, the indexed characters of a string, and nothing for any
  other value. \<^verbatim>\<open>Object.entries\<close> lists the same pairs. An assignment \<^verbatim>\<open>p.k = v\<close>
  replaces the value of an existing property where it stands and appends a new one.
  \<^verbatim>\<open>Object.fromEntries\<close> assigns the pairs in order to an empty object.
\<close>

definition indexed :: "jsval list \<Rightarrow> jsobject" where
  "indexed xs = zip (map show_nat [0 ..< length xs]) xs"

fun spread :: "jsval \<Rightarrow> jsobject" where
  "spread (JObj kvs) = kvs"
| "spread (JArr xs) = indexed xs"
| "spread (JStr s) = indexed (map (\<lambda>c. JStr [c]) s)"
| "spread v = []"

fun setp :: "jsobject \<Rightarrow> string \<Rightarrow> jsval \<Rightarrow> jsobject" where
  "setp [] k v = [(k, v)]"
| "setp ((k', v') # r) k v = (if k' = k then (k, v) # r else (k', v') # setp r k v)"

definition fromEntries :: "jsobject \<Rightarrow> jsobject" where
  "fromEntries kvs = foldl (\<lambda>r kv. setp r (fst kv) (snd kv)) [] kvs"

definition normalizeProp :: "jsval \<Rightarrow> jsobject" where
  "normalizeProp prop =
     (let v0 = spread prop;
          v1 = (if getp v0 ''type'' = JStr ''STRING'' then setp v0 ''type'' (JStr ''string'') else v0);
          v2 = (if getp v1 ''type'' = JStr ''NUMBER'' then setp v1 ''type'' (JStr ''number'') else v1);
          v3 = (if getp v2 ''type'' = JStr ''BOOLEAN'' then setp v2 ''type'' (JStr ''boolean'') else v2);
          v4 = (if getp v3 ''type'' = JStr ''ARRAY'' then setp v3 ''type'' (JStr ''array'') else v3);
          v5 = (if getp v4 ''type'' = JStr ''OBJECT'' then setp v4 ''type'' (JStr ''object'') else v4)
      in v5)"

definition normalizeProps :: "jsval \<Rightarrow> jsval" where
  "normalizeProps properties =
     JObj (fromEntries (map (\<lambda>kv. (fst kv, JObj (normalizeProp (snd kv)))) (spread properties)))"

definition normalizeParams :: "jsval \<Rightarrow> jsobject" where
  "normalizeParams params =
     (let p0 = spread params;
          p1 = (if getp p0 ''type'' = JStr ''OBJECT'' then setp p0 ''type'' (JStr ''object'') else p0);
          p2 = (if truthy (getp p1 ''properties'')
                then setp p1 ''properties'' (normalizeProps (getp p1 ''properties''))
                else p1)
      in p2)"

text \<open>The claim's words: the five tokens and their lower-case forms.\<close>

definition type_tokens :: "jsval list" where
  "type_tokens = [JStr ''OBJECT'', JStr ''STRING'', JStr ''NUMBER'', JStr ''BOOLEAN'', JStr ''ARRAY'']"

definition lower_token :: "jsval \<Rightarrow> jsval" where
  "lower_token t =
     (if t = JStr ''OBJECT'' then JStr ''object''
      else if t = JStr ''STRING'' then JStr ''string''
      else if t = JStr ''NUMBER'' then JStr ''number''
      else if t = JStr ''BOOLEAN'' then JStr ''boolean''
      else if t = JStr ''ARRAY'' then JStr ''array''
      else t)"

text \<open>The parameters of \<^verbatim>\<open>compute_stats_json\<close> in \<^verbatim>\<open>JSON_TOOL_DECLARATIONS\<close>.\<close>

definition stats_parameters :: jsobject where
  "stats_parameters =
     [(''type'', JStr ''OBJECT''),
      (''properties'',
         JObj [(''field'',
                JObj [(''type'', JStr ''STRING''),
                      (''description'',
                       JStr ''Exact numeric field name from the JSON (e.g. view_count, like_count, comment_count).'')])]),
      (''required'', JArr [JStr ''field''])]"

definition stats_parameters_openai :: jsobject where
  "stats_parameters_openai =
     [(''type'', JStr ''object''),
      (''properties'',
         JObj [(''field'',
                JObj [(''type'', JStr ''string''),
                      (''description'',
                       JStr ''Exact numeric field name from the JSON (e.g. view_count, like_count, comment_count).'')])]),
      (''required'', JArr [JStr ''field''])]"

subsection \<open>Properties of assignment\<close>

lemma getp_setp_same [simp]: "getp (setp r k v) k = v"
  by (induction r) (auto simp: getp_def)

lemma getp_setp_other [simp]: "k' \<noteq> k \<Longrightarrow> getp (setp r k v) k' = getp r k'"
  by (induction r) (auto simp: getp_def)

lemma keys_setp: "k \<in> set (map fst r) \<Longrightarrow> map fst (setp r k v) = map fst r"
proof (induction r)
  case Nil
  then show ?case by simp
next
  case (Cons a r)
  then show ?case
    by (cases a) auto
qed

lemma setp_absent: "k \<notin> set (map fst r) \<Longrightarrow> setp r k v = r @ [(k, v)]"
  by (induction r) auto

lemma setp_same_value: "k \<in> set (map fst r) \<Longrightarrow> getp r k = v \<Longrightarrow> setp r k v = r"
proof (induction r)
  case Nil
  then show ?case by simp
next
  case (Cons a r)
  show ?case
  proof (cases "fst a = k")
    case True
    with Cons.prems show ?thesis
      by (cases a) (simp add: getp_def)
  next
    case False
    with Cons.prems have "k \<in> set (map fst r)" "getp r k = v"
      by (cases a; simp add: getp_def)+
    with Cons.IH False show ?thesis
      by (cases a) simp
  qed
qed

lemma getp_absent: "k \<notin> set (map fst r) \<Longrightarrow> getp r k = JUndefined"
  by (induction r) (auto simp: getp_def)

lemma getp_defined_key: "getp r k \<noteq> JUndefined \<Longrightarrow> k \<in> set (map fst r)"
  using getp_absent by blast

lemma fromEntries_append:
  "distinct (map fst kvs) \<Longrightarrow> set (map fst kvs) \<inter> set (map fst r) = {} \<Longrightarrow>
     foldl (\<lambda>r kv. setp r (fst kv) (snd kv)) r kvs = r @ kvs"
proof (induction kvs arbitrary: r)
  case Nil
  then show ?case by simp
next
  case (Cons kv kvs)
  from Cons.prems have "fst kv \<notin> set (map fst r)"
    by auto
  then have step: "setp r (fst kv) (snd kv) = r @ [kv]"
    by (simp add: setp_absent)
  from Cons.prems have "distinct (map fst kvs)"
    "set (map fst kvs) \<inter> set (map fst (r @ [kv])) = {}"
    by auto
  from Cons.IH [OF this] step show ?case
    by simp
qed

lemma fromEntries_distinct_id: "distinct (map fst kvs) \<Longrightarrow> fromEntries kvs = kvs"
  using fromEntries_append [of kvs "[]"] by (simp add: fromEntries_def)

lemma set_setp: "set (setp r k v) \<subseteq> insert (k, v) (set r)"
proof (induction r)
  case Nil
  then show ?case by simp
next
  case (Cons a r)
  then show ?case
    by (cases a) auto
qed

lemma distinct_setp: "distinct (map fst r) \<Longrightarrow> distinct (map fst (setp r k v))"
proof (induction r)
  case Nil
  then show ?case by simp
next
  case (Cons a r)
  show ?case
  proof (cases "fst a = k")
    case True
    with Cons.prems show ?thesis
      by (cases a) auto
  next
    case False
    have "set (map fst (setp r k v)) \<subseteq> insert k (set (map fst r))"
      using set_setp [of r k v] by force
    with Cons False show ?thesis
      by (cases a) auto
  qed
qed

lemma foldl_setp_distinct:
  "distinct (map fst r) \<Longrightarrow> distinct (map fst (foldl (\<lambda>r kv. setp r (fst kv) (snd kv)) r kvs))"
  by (induction kvs arbitrary: r) (simp_all add: distinct_setp)

lemma fromEntries_distinct: "distinct (map fst (fromEntries kvs))"
  by (simp add: fromEntries_def foldl_setp_distinct)


lemma foldl_setp_values:
  "snd ` set (foldl (\<lambda>r kv. setp r (fst kv) (snd kv)) r kvs) \<subseteq> snd ` set r \<union> snd ` set kvs"
proof (induction kvs arbitrary: r)
  case Nil
  then show ?case by simp
next
  case (Cons kv kvs)
  have "snd ` set (setp r (fst kv) (snd kv)) \<subseteq> insert (snd kv) (snd ` set r)"
    using set_setp [of r "fst kv" "snd kv"] by force
  with Cons.IH [of "setp r (fst kv) (snd kv)"] show ?case
    by auto
qed

lemma fromEntries_values: "snd ` set (fromEntries kvs) \<subseteq> snd ` set kvs"
  using foldl_setp_values [of "[]" kvs] by (simp add: fromEntries_def)

subsection \<open>normalizeProp\<close>

lemma normalizeProp_cases:
  "normalizeProp prop =
     (if getp (spread prop) ''type'' \<in> set type_tokens
      then setp (spread prop) ''type'' (lower_token (getp (spread prop) ''type''))
      else spread prop)"
  by (simp add: normalizeProp_def type_tokens_def lower_token_def Let_def)

lemma normalizeProp_type:
  "getp (normalizeProp prop) ''type'' = lower_token (getp (spread prop) ''type'')"
  by (simp add: normalizeProp_cases) (simp add: type_tokens_def lower_token_def)

lemma lower_token_fixed: "lower_token t \<notin> set type_tokens"
  by (simp add: type_tokens_def lower_token_def)

lemma normalizeProp_idem: "normalizeProp (JObj (normalizeProp prop)) = normalizeProp prop"
proof -
  have "getp (normalizeProp prop) ''type'' \<notin> set type_tokens"
    by (simp add: normalizeProp_type lower_token_fixed)
  then show ?thesis
    by (subst normalizeProp_cases) simp
qed

lemma normalizeProp_other: "k \<noteq> ''type'' \<Longrightarrow> getp (normalizeProp prop) k = getp (spread prop) k"
  by (simp add: normalizeProp_cases)

lemma normalizeProp_unchanged:
  "getp (spread prop) ''type'' \<notin> set type_tokens \<Longrightarrow> normalizeProp prop = spread prop"
  by (simp add: normalizeProp_cases)

lemma normalizeProp_keys: "map fst (normalizeProp prop) = map fst (spread prop)"
proof (cases "getp (spread prop) ''type'' \<in> set type_tokens")
  case True
  then have "getp (spread prop) ''type'' \<noteq> JUndefined"
    by (auto simp: type_tokens_def)
  then have "''type'' \<in> set (map fst (spread prop))"
    by (rule getp_defined_key)
  with True show ?thesis
    by (simp add: normalizeProp_cases keys_setp)
next
  case False
  then show ?thesis
    by (simp add: normalizeProp_cases)
qed

subsection \<open>normalizeParams\<close>

lemma normalizeProps_idem: "normalizeProps (normalizeProps x) = normalizeProps x"
proof -
  let ?f = "\<lambda>kv. (fst kv, JObj (normalizeProp (snd kv)))"
  let ?L = "fromEntries (map ?f (spread x))"
  have "snd ` set ?L \<subseteq> snd ` set (map ?f (spread x))"
    by (rule fromEntries_values)
  then have vals: "\<exists>v. snd kv = JObj (normalizeProp v)" if "kv \<in> set ?L" for kv
    using that by force
  have "map ?f ?L = ?L"
  proof (rule map_idI)
    fix kv
    assume "kv \<in> set ?L"
    from vals [OF this] obtain v where "snd kv = JObj (normalizeProp v)"
      by blast
    then show "?f kv = kv"
      by (cases kv) (simp add: normalizeProp_idem)
  qed
  moreover have "fromEntries ?L = ?L"
    by (intro fromEntries_distinct_id fromEntries_distinct)
  ultimately show ?thesis
    by (simp add: normalizeProps_def)
qed

lemma normalizeProps_truthy: "truthy (normalizeProps x)"
  by (simp add: normalizeProps_def)

lemma normalizeParams_idem: "normalizeParams (JObj (normalizeParams params)) = normalizeParams params"
proof -
  define p0 where "p0 = spread params"
  define p1 where
    "p1 = (if getp p0 ''type'' = JStr ''OBJECT'' then setp p0 ''type'' (JStr ''object'') else p0)"
  define p2 where
    "p2 = (if truthy (getp p1 ''properties'')
           then setp p1 ''properties'' (normalizeProps (getp p1 ''properties'')) else p1)"
  have N: "normalizeParams params = p2"
    by (simp add: normalizeParams_def p0_def p1_def p2_def Let_def)
  have ty1: "getp p1 ''type'' \<noteq> JStr ''OBJECT''"
    by (simp add: p1_def)
  have ty2: "getp p2 ''type'' = getp p1 ''type''"
    by (simp add: p2_def)
  have pr2: "getp p2 ''properties'' =
               (if truthy (getp p1 ''properties'') then normalizeProps (getp p1 ''properties'')
                else getp p1 ''properties'')"
    by (simp add: p2_def)
  have again: "(if truthy (getp p2 ''properties'')
                then setp p2 ''properties'' (normalizeProps (getp p2 ''properties'')) else p2) = p2"
  proof (cases "truthy (getp p1 ''properties'')")
    case True
    with pr2 have v: "getp p2 ''properties'' = normalizeProps (getp p1 ''properties'')"
      by simp
    then have "getp p2 ''properties'' \<noteq> JUndefined"
      by (simp add: normalizeProps_def)
    then have "''properties'' \<in> set (map fst p2)"
      by (rule getp_defined_key)
    moreover have "normalizeProps (getp p2 ''properties'') = getp p2 ''properties''"
      by (simp add: v normalizeProps_idem)
    ultimately show ?thesis
      by (simp add: setp_same_value)
  next
    case False
    with pr2 show ?thesis
      by simp
  qed
  from ty1 ty2 have "getp p2 ''type'' \<noteq> JStr ''OBJECT''"
    by simp
  then have "normalizeParams (JObj p2) =
               (if truthy (getp p2 ''properties'')
                then setp p2 ''properties'' (normalizeProps (getp p2 ''properties'')) else p2)"
    by (simp add: normalizeParams_def Let_def)
  with again have "normalizeParams (JObj p2) = p2"
    by (simp only:)
  with N show ?thesis
    by simp
qed

lemma normalizeParams_other:
  "k \<noteq> ''type'' \<Longrightarrow> k \<noteq> ''properties'' \<Longrightarrow>
     getp (normalizeParams params) k = getp (spread params) k"
  by (simp add: normalizeParams_def Let_def)

lemma normalizeParams_type:
  "getp (normalizeParams params) ''type'' =
     (if getp (spread params) ''type'' = JStr ''OBJECT'' then JStr ''object''
      else getp (spread params) ''type'')"
  by (simp add: normalizeParams_def Let_def)

lemma normalizeParams_properties:
  "getp (normalizeParams params) ''properties'' =
     (if truthy (getp (spread params) ''properties'')
      then normalizeProps (getp (spread params) ''properties'')
      else getp (spread params) ''properties'')"
  by (simp add: normalizeParams_def Let_def)

lemma normalizeProps_object:
  "distinct (map fst props) \<Longrightarrow>
     normalizeProps (JObj props) = JObj (map (\<lambda>kv. (fst kv, JObj (normalizeProp (snd kv)))) props)"
  by (simp add: normalizeProps_def fromEntries_distinct_id comp_def)

text \<open>
  C8. Normalising twice is normalising once, for the parameter object and for a
  property. On a property object, the type is replaced by the lower-case form when it is
  one of the five tokens and by itself otherwise, the keys and every other field stay,
  and a property whose type is none of the tokens is returned as it is. On the
  parameter object, only the token \<^verbatim>\<open>OBJECT\<close> is replaced, every field other than
  \<^verbatim>\<open>type\<close> and \<^verbatim>\<open>properties\<close> stays, and \<^verbatim>\<open>properties\<close> keeps its keys in order with
  each property normalised (or stays as it is when it is absent).
\<close>

theorem normalizeParams_idempotent_lossless:
  "normalizeParams (JObj (normalizeParams params)) = normalizeParams params
   \<and> normalizeProp (JObj (normalizeProp prop)) = normalizeProp prop
   \<and> getp (normalizeProp (JObj v)) ''type'' = lower_token (getp v ''type'')
   \<and> map fst (normalizeProp (JObj v)) = map fst v
   \<and> (k \<noteq> ''type'' \<longrightarrow> getp (normalizeProp (JObj v)) k = getp v k)
   \<and> (getp v ''type'' \<notin> set type_tokens \<longrightarrow> normalizeProp (JObj v) = v)
   \<and> getp (normalizeParams (JObj p)) ''type''
       = (if getp p ''type'' = JStr ''OBJECT'' then JStr ''object'' else getp p ''type'')
   \<and> (k \<noteq> ''type'' \<and> k \<noteq> ''properties'' \<longrightarrow> getp (normalizeParams (JObj p)) k = getp p k)
   \<and> (getp p ''properties'' = JObj props \<and> distinct (map fst props) \<longrightarrow>
        getp (normalizeParams (JObj p)) ''properties''
          = JObj (map (\<lambda>kv. (fst kv, JObj (normalizeProp (snd kv)))) props))
   \<and> (\<not> truthy (getp p ''properties'') \<longrightarrow>
        getp (normalizeParams (JObj p)) ''properties'' = getp p ''properties'')"
proof (intro conjI impI)
  show "normalizeParams (JObj (normalizeParams params)) = normalizeParams params"
    by (rule normalizeParams_idem)
  show "normalizeProp (JObj (normalizeProp prop)) = normalizeProp prop"
    by (rule normalizeProp_idem)
  show "getp (normalizeProp (JObj v)) ''type'' = lower_token (getp v ''type'')"
    by (simp add: normalizeProp_type)
  show "map fst (normalizeProp (JObj v)) = map fst v"
    by (simp add: normalizeProp_keys)
  show "getp (normalizeProp (JObj v)) k = getp v k" if "k \<noteq> ''type''"
    using that by (simp add: normalizeProp_other)
  show "normalizeProp (JObj v) = v" if "getp v ''type'' \<notin> set type_tokens"
    using that by (simp add: normalizeProp_unchanged)
  show "getp (normalizeParams (JObj p)) ''type''
          = (if getp p ''type'' = JStr ''OBJECT'' then JStr ''object'' else getp p ''type'')"
    by (simp add: normalizeParams_type)
  show "getp (normalizeParams (JObj p)) k = getp p k" if "k \<noteq> ''type'' \<and> k \<noteq> ''properties''"
    using that by (simp add: normalizeParams_other)
  show "getp (normalizeParams (JObj p)) ''properties''
          = JObj (map (\<lambda>kv. (fst kv, JObj (normalizeProp (snd kv)))) props)"
    if "getp p ''properties'' = JObj props \<and> distinct (map fst props)"
    using that by (simp add: normalizeParams_properties normalizeProps_object)
  show "getp (normalizeParams (JObj p)) ''properties'' = getp p ''properties''"
    if "\<not> truthy (getp p ''properties'')"
    using that by (simp add: normalizeParams_properties)
qed

lemma normalize_stats_parameters:
  "normalizeParams (JObj stats_parameters) = stats_parameters_openai"
  by (simp add: normalizeParams_def normalizeProps_def normalizeProp_def fromEntries_def
      stats_parameters_def stats_parameters_openai_def getp_def Let_def)

theorem normalizeParams_idempotent_lossless_witness:
  "normalizeParams (JObj stats_parameters) = stats_parameters_openai
   \<and> normalizeParams (JObj stats_parameters_openai) = stats_parameters_openai
   \<and> getp (normalizeParams (JObj stats_parameters)) ''required'' = JArr [JStr ''field'']
   \<and> getp (normalizeParams (JObj stats_parameters)) ''properties''
       = getp stats_parameters_openai ''properties''
   \<and> normalizeProp (JObj [(''type'', JStr ''integer''), (''description'', JStr ''n'')])
       = [(''type'', JStr ''integer''), (''description'', JStr ''n'')]
   \<and> getp (normalizeProp (JObj [(''type'', JStr ''STRING''), (''description'', JStr ''n'')]))
        ''description'' = JStr ''n''
   \<and> getp (normalizeProp (JObj [(''type'', JStr ''STRING''), (''description'', JStr ''n'')]))
        ''type'' = JStr ''string''"
proof -
  note t = normalizeParams_idempotent_lossless
  let ?field = "JObj [(''type'', JStr ''STRING''),
                      (''description'',
                       JStr ''Exact numeric field name from the JSON (e.g. view_count, like_count, comment_count).'')]"
  have twice: "normalizeParams (JObj stats_parameters_openai) = stats_parameters_openai"
    using t [of "JObj stats_parameters", THEN conjunct1]
    by (simp add: normalize_stats_parameters)
  have required: "getp (normalizeParams (JObj stats_parameters)) ''required'' = JArr [JStr ''field'']"
    using t [of _ _ _ "''required''" stats_parameters]
    by (simp add: stats_parameters_def getp_def)
  have props: "getp stats_parameters ''properties'' = JObj [(''field'', ?field)]
               \<and> distinct (map fst [(''field'', ?field)])"
    by (simp add: stats_parameters_def getp_def)
  have "getp (normalizeParams (JObj stats_parameters)) ''properties''
          = JObj [(''field'', JObj (normalizeProp ?field))]"
    using t [of _ _ _ _ stats_parameters "[(''field'', ?field)]"] props
    by simp
  then have properties: "getp (normalizeParams (JObj stats_parameters)) ''properties''
      = getp stats_parameters_openai ''properties''"
    by (simp add: normalizeProp_def stats_parameters_openai_def getp_def)
  have other: "getp [(''type'', JStr ''integer''), (''description'', JStr ''n'')] ''type''
                 \<notin> set type_tokens"
    by (simp add: type_tokens_def getp_def)
  have kept: "normalizeProp (JObj [(''type'', JStr ''integer''), (''description'', JStr ''n'')])
                = [(''type'', JStr ''integer''), (''description'', JStr ''n'')]"
    using t [of _ _ "[(''type'', JStr ''integer''), (''description'', JStr ''n'')]"] other
    by blast
  have descr: "getp (normalizeProp (JObj [(''type'', JStr ''STRING''), (''description'', JStr ''n'')]))
                 ''description'' = JStr ''n''"
    using t [of _ _ "[(''type'', JStr ''STRING''), (''description'', JStr ''n'')]" "''description''"]
    by (simp add: getp_def)
  have lowered: "getp (normalizeProp (JObj [(''type'', JStr ''STRING''), (''description'', JStr ''n'')]))
                   ''type'' = JStr ''string''"
    using t [of _ _ "[(''type'', JStr ''STRING''), (''description'', JStr ''n'')]"]
    by (simp add: getp_def lower_token_def)
  from normalize_stats_parameters twice required properties kept descr lowered show ?thesis
    by (simp only: simp_thms)
qed

section \<open>gemini.js: the tool-call loops\<close>

subsection \<open>The chat-completions loop of chatWithCsvToolsOpenAI\<close>


















subsection \<open>The chat-session loop of chatWithJsonToolsGemini\<close>

text \<open>
  A Gemini chat keeps what was sent: the provider answers the list of everything sent so
  far in the session, after the history the chat was started with. At most the first
  function call of a response is run. \<open>g_text\<close> is what \<^verbatim>\<open>response.text()\<close> gives, which
  the SDK may refuse with an exception. A tool result that is a promise is awaited; the
  executor here returns what the promise settles to.
\<close>

datatype part = TextPart string | FunctionCallPart jsval jsval | OtherPart











subsection \<open>What the loops are run against\<close>











subsection \<open>The round ceilings\<close>











section \<open>Chat.js: parseCSV and the base64 transport\<close>

text \<open>
  The text of a dropped file is a general JavaScript string: a list of 16-bit code
  units, of which \<^verbatim>\<open>length\<close>, \<^verbatim>\<open>slice\<close>, \<^verbatim>\<open>split\<close> and \<^verbatim>\<open>trim\<close> work. The bytes of a
  \<^verbatim>\<open>Uint8Array\<close> are natural numbers below 256; the binary string built from them and
  the base64 text have code units below 256 and are strings as above.
\<close>

type_synonym code_unit = "16 word"

type_synonym utf16 = "code_unit list"

subsection \<open>String methods on code units\<close>

text \<open>\<^verbatim>\<open>trim\<close> removes white space and line terminators from both ends.\<close>

definition is_white :: "code_unit \<Rightarrow> bool" where
  "is_white u =
     (let n = unat u in
      n \<in> set [0x09, 0x0A, 0x0B, 0x0C, 0x0D, 0x20, 0xA0, 0x1680, 0x2028, 0x2029, 0x202F,
                0x205F, 0x3000, 0xFEFF]
      \<or> (0x2000 \<le> n \<and> n \<le> 0x200A))"

definition trim_units :: "utf16 \<Rightarrow> utf16" where
  "trim_units s = rev (dropWhile is_white (rev (dropWhile is_white s)))"

fun split_units :: "code_unit \<Rightarrow> utf16 \<Rightarrow> utf16 list" where
  "split_units sep [] = [[]]"
| "split_units sep (u # us) =
     (if u = sep then [] # split_units sep us
      else (case split_units sep us of
              [] \<Rightarrow> [[u]]
            | p # ps \<Rightarrow> (u # p) # ps))"

fun join_units :: "utf16 \<Rightarrow> utf16 list \<Rightarrow> utf16" where
  "join_units sep [] = []"
| "join_units sep [x] = x"
| "join_units sep (x # y # ys) = x @ sep @ join_units sep (y # ys)"

text \<open>\<^verbatim>\<open>h.replace(/^"|"$/g, '')\<close>: a quote at the start goes, then a quote at the end.\<close>

definition strip_quotes :: "utf16 \<Rightarrow> utf16" where
  "strip_quotes h =
     (let h1 = (if h \<noteq> [] \<and> hd h = 0x22 then tl h else h)
      in if h1 \<noteq> [] \<and> last h1 = 0x22 then butlast h1 else h1)"

subsection \<open>toBase64\<close>

text \<open>
  \<^verbatim>\<open>new TextEncoder().encode(str)\<close> reads the string as scalar values, a high surrogate
  followed by a low one as one value and any other surrogate as U+FFFD, and writes each
  in UTF-8.
\<close>

definition is_high :: "code_unit \<Rightarrow> bool" where
  "is_high u = (0xD800 \<le> unat u \<and> unat u \<le> 0xDBFF)"

definition is_low :: "code_unit \<Rightarrow> bool" where
  "is_low u = (0xDC00 \<le> unat u \<and> unat u \<le> 0xDFFF)"

definition is_surrogate :: "code_unit \<Rightarrow> bool" where
  "is_surrogate u = (0xD800 \<le> unat u \<and> unat u \<le> 0xDFFF)"

definition single :: "code_unit \<Rightarrow> nat" where
  "single u = (if is_surrogate u then 0xFFFD else unat u)"

definition paired :: "code_unit \<Rightarrow> code_unit \<Rightarrow> nat" where
  "paired u v = 0x10000 + (unat u - 0xD800) * 0x400 + (unat v - 0xDC00)"

fun scalar_values :: "utf16 \<Rightarrow> nat list" where
  "scalar_values [] = []"
| "scalar_values [u] = [single u]"
| "scalar_values (u # v # r) =
     (if is_high u \<and> is_low v then paired u v # scalar_values r
      else single u # scalar_values (v # r))"

definition utf8 :: "nat \<Rightarrow> nat list" where
  "utf8 cp =
     (if cp < 0x80 then [cp]
      else if cp < 0x800 then [0xC0 + cp div 0x40, 0x80 + cp mod 0x40]
      else if cp < 0x10000 then
        [0xE0 + cp div 0x1000, 0x80 + cp div 0x40 mod 0x40, 0x80 + cp mod 0x40]
      else
        [0xF0 + cp div 0x40000, 0x80 + cp div 0x1000 mod 0x40, 0x80 + cp div 0x40 mod 0x40,
         0x80 + cp mod 0x40])"

definition TextEncoder_encode :: "utf16 \<Rightarrow> nat list" where
  "TextEncoder_encode str = concat (map utf8 (scalar_values str))"

text \<open>
  \<^verbatim>\<open>btoa\<close>: three bytes of the binary string give four characters of the alphabet, and a
  last group of one or two bytes is padded with \<^verbatim>\<open>=\<close>.
\<close>

definition b64_alphabet :: string where
  "b64_alphabet = ''ABCDEFGHIJKLMNOPQRSTUVWXYZabcdefghijklmnopqrstuvwxyz0123456789+/''"

definition b64_char :: "nat \<Rightarrow> char" where
  "b64_char n = b64_alphabet ! n"

fun btoa_bytes :: "nat list \<Rightarrow> string" where
  "btoa_bytes [] = []"
| "btoa_bytes [a] = [b64_char (a div 4), b64_char (a mod 4 * 16), CHR ''='', CHR ''='']"
| "btoa_bytes [a, b] =
     [b64_char (a div 4), b64_char (a mod 4 * 16 + b div 16), b64_char (b mod 16 * 4),
      CHR ''='']"
| "btoa_bytes (a # b # c # r) =
     [b64_char (a div 4), b64_char (a mod 4 * 16 + b div 16),
      b64_char (b mod 16 * 4 + c div 64), b64_char (c mod 64)] @ btoa_bytes r"

definition btoa :: "string \<Rightarrow> string" where
  "btoa binary = btoa_bytes (map of_char binary)"

definition toBase64 :: "utf16 \<Rightarrow> string" where
  "toBase64 str =
     (let bytes = TextEncoder_encode str;
          binary = map char_of bytes
      in btoa binary)"

subsection \<open>parseCSV\<close>

record csv_context =
  headers :: "utf16 list"
  rowCount :: nat
  preview :: utf16
  base64 :: string
  truncated :: bool

definition parseCSV :: "utf16 \<Rightarrow> csv_context option" where
  "parseCSV text =
     (let lines = filter (\<lambda>l. trim_units l \<noteq> []) (split_units 0x0A text)
      in if lines = [] then None
         else
           let headers = map (\<lambda>h. strip_quotes (trim_units h)) (split_units 0x2C (hd lines));
               rowCount = length lines - 1;
               preview = join_units [0x0A] (take 6 lines);
               raw = (if length text > 500000 then take 500000 text else text);
               base64 = toBase64 raw;
               truncated = (length text > 500000)
           in Some \<lparr> headers = headers, rowCount = rowCount, preview = preview,
                      base64 = base64, truncated = truncated \<rparr>)"

subsection \<open>The decode recipe\<close>

text \<open>
  The prompt tells the code-execution environment to read the payload with
  \<^verbatim>\<open>pd.read_csv(io.BytesIO(base64.b64decode(...)))\<close>: the base64 text is decoded to
  bytes and the bytes are read as UTF-8. \<open>b64decode\<close> and \<open>utf8_decode\<close> are these two
  steps, strict (\<open>None\<close> on text that is not base64, or bytes that are not UTF-8);
  \<open>units\<close> writes a decoded scalar value in code units again, so that what was decoded
  can be compared with the string that was encoded.
\<close>

fun index_of :: "'a list \<Rightarrow> 'a \<Rightarrow> nat option" where
  "index_of [] c = None"
| "index_of (x # xs) c = (if x = c then Some 0 else map_option Suc (index_of xs c))"

definition b64_val :: "char \<Rightarrow> nat option" where
  "b64_val c = index_of b64_alphabet c"

fun b64decode :: "string \<Rightarrow> nat list option" where
  "b64decode [] = Some []"
| "b64decode (c1 # c2 # c3 # c4 # r) =
     (case (b64_val c1, b64_val c2) of
        (Some i1, Some i2) \<Rightarrow>
          if c3 = CHR ''='' \<and> c4 = CHR ''='' \<and> r = [] then Some [i1 * 4 + i2 div 16]
          else
            (case b64_val c3 of
               None \<Rightarrow> None
             | Some i3 \<Rightarrow>
                 if c4 = CHR ''='' \<and> r = [] then
                   Some [i1 * 4 + i2 div 16, i2 mod 16 * 16 + i3 div 4]
                 else
                   (case (b64_val c4, b64decode r) of
                      (Some i4, Some bs) \<Rightarrow>
                        Some ((i1 * 4 + i2 div 16) # (i2 mod 16 * 16 + i3 div 4)
                              # (i3 mod 4 * 64 + i4) # bs)
                    | _ \<Rightarrow> None))
      | _ \<Rightarrow> None)"
| "b64decode _ = None"

definition continuation :: "nat \<Rightarrow> bool" where
  "continuation b = (0x80 \<le> b \<and> b < 0xC0)"

fun utf8_decode :: "nat list \<Rightarrow> nat list option" where
  "utf8_decode [] = Some []"
| "utf8_decode (b # bs) =
     (if b < 0x80 then map_option (Cons b) (utf8_decode bs)
      else if 0xC0 \<le> b \<and> b < 0xE0 then
        (case bs of
           b2 # r \<Rightarrow>
             (let cp = (b - 0xC0) * 0x40 + (b2 - 0x80)
              in if continuation b2 \<and> 0x80 \<le> cp then map_option (Cons cp) (utf8_decode r)
                 else None)
         | _ \<Rightarrow> None)
      else if 0xE0 \<le> b \<and> b < 0xF0 then
        (case bs of
           b2 # b3 # r \<Rightarrow>
             (let cp = (b - 0xE0) * 0x1000 + (b2 - 0x80) * 0x40 + (b3 - 0x80)
              in if continuation b2 \<and> continuation b3 \<and> 0x800 \<le> cp
                    \<and> \<not> (0xD800 \<le> cp \<and> cp \<le> 0xDFFF)
                 then map_option (Cons cp) (utf8_decode r)
                 else None)
         | _ \<Rightarrow> None)
      else if 0xF0 \<le> b \<and> b < 0xF8 then
        (case bs of
           b2 # b3 # b4 # r \<Rightarrow>
             (let cp = (b - 0xF0) * 0x40000 + (b2 - 0x80) * 0x1000 + (b3 - 0x80) * 0x40
                       + (b4 - 0x80)
              in if continuation b2 \<and> continuation b3 \<and> continuation b4 \<and> 0x10000 \<le> cp
                    \<and> cp \<le> 0x10FFFF
                 then map_option (Cons cp) (utf8_decode r)
                 else None)
         | _ \<Rightarrow> None)
      else None)"

definition units :: "nat \<Rightarrow> utf16" where
  "units cp =
     (if cp < 0x10000 then [of_nat cp]
      else [of_nat (0xD800 + (cp - 0x10000) div 0x400), of_nat (0xDC00 + (cp - 0x10000) mod 0x400)])"

definition decoded_text :: "string \<Rightarrow> utf16 option" where
  "decoded_text payload =
     (case b64decode payload of
        None \<Rightarrow> None
      | Some bytes \<Rightarrow> map_option (\<lambda>cps. concat (map units cps)) (utf8_decode bytes))"

text \<open>
  A string is well formed when every surrogate in it is half of a pair; \<open>toWellFormed\<close>
  puts U+FFFD for each that is not (the string methods of these names).
\<close>

fun isWellFormed :: "utf16 \<Rightarrow> bool" where
  "isWellFormed [] = True"
| "isWellFormed [u] = (\<not> is_surrogate u)"
| "isWellFormed (u # v # r) =
     (if is_high u \<and> is_low v then isWellFormed r
      else \<not> is_surrogate u \<and> isWellFormed (v # r))"

fun toWellFormed :: "utf16 \<Rightarrow> utf16" where
  "toWellFormed [] = []"
| "toWellFormed [u] = [if is_surrogate u then 0xFFFD else u]"
| "toWellFormed (u # v # r) =
     (if is_high u \<and> is_low v then u # v # toWellFormed r
      else (if is_surrogate u then 0xFFFD else u) # toWellFormed (v # r))"

subsection \<open>base64 read back\<close>

lemma index_of_nth: "distinct xs \<Longrightarrow> n < length xs \<Longrightarrow> index_of xs (xs ! n) = Some n"
proof (induction xs arbitrary: n)
  case Nil
  then show ?case by simp
next
  case (Cons x xs)
  show ?case
  proof (cases n)
    case 0
    then show ?thesis by simp
  next
    case (Suc m)
    with Cons.prems have "xs ! m \<in> set xs" "x \<notin> set xs"
      by simp_all
    then have "x \<noteq> xs ! m"
      by blast
    with Suc Cons show ?thesis
      by simp
  qed
qed

lemma distinct_b64_alphabet: "distinct b64_alphabet"
  by (simp add: b64_alphabet_def)

lemma length_b64_alphabet: "length b64_alphabet = 64"
  by (simp add: b64_alphabet_def)

lemma b64_val_char: "n < 64 \<Longrightarrow> b64_val (b64_char n) = Some n"
  unfolding b64_val_def b64_char_def
  by (rule index_of_nth) (simp_all add: distinct_b64_alphabet length_b64_alphabet)

lemma b64_val_pad: "b64_val CHR ''='' = None"
  by (simp add: b64_val_def b64_alphabet_def)

lemma b64_char_not_pad: "n < 64 \<Longrightarrow> b64_char n \<noteq> CHR ''=''"
  using b64_val_char [of n] b64_val_pad by auto

lemma div_bounds:
  fixes a :: nat
  assumes "a < 256"
  shows "a div 4 < 64" "a div 16 < 16" "a div 64 < 4"
  using assms by (simp_all add: less_mult_imp_div_less)

lemma sextets:
  fixes a b c :: nat
  assumes "a < 256" "b < 256" "c < 256"
  shows "a div 4 < 64" "a mod 4 * 16 < 64" "a mod 4 * 16 + b div 16 < 64"
    "b mod 16 * 4 < 64" "b mod 16 * 4 + c div 64 < 64" "c mod 64 < 64"
proof -
  have "a mod 4 < 4" "b mod 16 < 16" "c mod 64 < 64"
    by simp_all
  then have "a mod 4 * 16 \<le> 48" "b mod 16 * 4 \<le> 60" "c mod 64 < 64"
    by linarith+
  with div_bounds [OF assms(1)] div_bounds [OF assms(2)] div_bounds [OF assms(3)]
  show "a div 4 < 64" "a mod 4 * 16 < 64" "a mod 4 * 16 + b div 16 < 64"
    "b mod 16 * 4 < 64" "b mod 16 * 4 + c div 64 < 64" "c mod 64 < 64"
    by linarith+
qed

lemma octets:
  fixes a b c :: nat
  assumes "b < 256" "c < 256"
  shows "a div 4 * 4 + a mod 4 * 16 div 16 = a"
    "a div 4 * 4 + (a mod 4 * 16 + b div 16) div 16 = a"
    "(a mod 4 * 16 + b div 16) mod 16 * 16 + b mod 16 * 4 div 4 = b"
    "(a mod 4 * 16 + b div 16) mod 16 * 16 + (b mod 16 * 4 + c div 64) div 4 = b"
    "(b mod 16 * 4 + c div 64) mod 4 * 64 + c mod 64 = c"
  using div_bounds [OF assms(1)] div_bounds [OF assms(2)] by simp_all

lemma b64decode_btoa_bytes: "\<forall>b \<in> set bs. b < 256 \<Longrightarrow> b64decode (btoa_bytes bs) = Some bs"
proof (induction bs rule: btoa_bytes.induct)
  case 1
  then show ?case by simp
next
  case (2 a)
  then have "a < 256"
    by simp
  then show ?case
    by (simp add: b64_val_char sextets octets [of a a])
next
  case (3 a b)
  then have "a < 256" "b < 256"
    by simp_all
  then show ?case
    by (simp add: b64_val_char b64_char_not_pad sextets octets)
next
  case (4 a b c r)
  then have "a < 256" "b < 256" "c < 256" and r: "b64decode (btoa_bytes r) = Some r"
    by simp_all
  then show ?case
    by (simp add: b64_val_char b64_char_not_pad sextets octets)
qed

lemma b64decode_btoa:
  "\<forall>b \<in> set bytes. b < 256 \<Longrightarrow> b64decode (btoa (map char_of bytes)) = Some bytes"
proof -
  assume small: "\<forall>b \<in> set bytes. b < 256"
  then have "map of_char (map char_of bytes) = bytes"
    by (induction bytes) simp_all
  with small show ?thesis
    by (simp add: btoa_def b64decode_btoa_bytes)
qed

subsection \<open>UTF-8 read back\<close>

definition is_scalar :: "nat \<Rightarrow> bool" where
  "is_scalar cp = (cp < 0x110000 \<and> \<not> (0xD800 \<le> cp \<and> cp \<le> 0xDFFF))"

lemma unat_code_unit: "unat (u :: code_unit) < 0x10000"
  using unsigned_less [of u, where ?'a = nat] by simp

lemma single_scalar: "is_scalar (single u)"
  using unat_code_unit [of u] by (simp add: single_def is_surrogate_def is_scalar_def)

lemma paired_range:
  assumes "is_high u" "is_low v"
  shows "0x10000 \<le> paired u v" "paired u v < 0x110000"
proof -
  from assms have "unat u - 0xD800 \<le> 0x3FF" "unat v - 0xDC00 \<le> 0x3FF"
    unfolding is_high_def is_low_def by linarith+
  then show "0x10000 \<le> paired u v" "paired u v < 0x110000"
    unfolding paired_def by linarith+
qed

lemma paired_scalar: "is_high u \<Longrightarrow> is_low v \<Longrightarrow> is_scalar (paired u v)"
  using paired_range [of u v] by (simp add: is_scalar_def)

lemma scalar_values_scalar: "\<forall>cp \<in> set (scalar_values s). is_scalar cp"
  by (induction s rule: scalar_values.induct) (simp_all add: single_scalar paired_scalar)

lemma low12: "(cp :: nat) div 0x40 mod 0x40 * 0x40 + cp mod 0x40 = cp mod 0x1000"
  using mod_mult2_eq [of cp 64 64] by simp

lemma low18: "(cp :: nat) div 0x1000 mod 0x40 * 0x1000 + cp mod 0x1000 = cp mod 0x40000"
  using mod_mult2_eq [of cp 4096 64] by simp

lemma three_bytes:
  "(cp :: nat) div 0x1000 * 0x1000 + cp div 0x40 mod 0x40 * 0x40 + cp mod 0x40 = cp"
  using low12 [of cp] div_mult_mod_eq [of cp 4096] by linarith

lemma four_bytes:
  "(cp :: nat) div 0x40000 * 0x40000 + cp div 0x1000 mod 0x40 * 0x1000
     + cp div 0x40 mod 0x40 * 0x40 + cp mod 0x40 = cp"
  using low12 [of cp] low18 [of cp] div_mult_mod_eq [of cp 262144] by linarith

lemma lead_bounds:
  fixes cp :: nat
  shows "cp < 0x800 \<Longrightarrow> cp div 0x40 < 0x20"
    and "cp < 0x10000 \<Longrightarrow> cp div 0x1000 < 0x10"
    and "cp < 0x110000 \<Longrightarrow> cp div 0x40000 < 5"
  by (simp_all add: less_mult_imp_div_less)

lemma utf8_small: "is_scalar cp \<Longrightarrow> \<forall>b \<in> set (utf8 cp). b < 256"
proof -
  assume "is_scalar cp"
  then have cp: "cp < 0x110000"
    by (simp add: is_scalar_def)
  have "cp mod 0x40 < 0x40" "cp div 0x40 mod 0x40 < 0x40" "cp div 0x1000 mod 0x40 < 0x40"
    by simp_all
  then have m: "cp mod 0x40 \<le> 0x3F" "cp div 0x40 mod 0x40 \<le> 0x3F"
    "cp div 0x1000 mod 0x40 \<le> 0x3F"
    by linarith+
  consider "cp < 0x80" | "0x80 \<le> cp" "cp < 0x800" | "0x800 \<le> cp" "cp < 0x10000"
    | "0x10000 \<le> cp"
    by linarith
  then show ?thesis
  proof cases
    case 1
    then show ?thesis
      by (simp add: utf8_def)
  next
    case 2
    with lead_bounds(1) [of cp] m show ?thesis
      by (simp add: utf8_def)
  next
    case 3
    with lead_bounds(2) [of cp] m show ?thesis
      by (simp add: utf8_def)
  next
    case 4
    with lead_bounds(3) [OF cp] m show ?thesis
      by (simp add: utf8_def)
  qed
qed

lemma utf8_decode_utf8:
  assumes "is_scalar cp"
  shows "utf8_decode (utf8 cp @ bs) = map_option (Cons cp) (utf8_decode bs)"
proof -
  from assms have cp: "cp < 0x110000" and ns: "\<not> (0xD800 \<le> cp \<and> cp \<le> 0xDFFF)"
    by (simp_all add: is_scalar_def)
  consider "cp < 0x80" | "0x80 \<le> cp" "cp < 0x800" | "0x800 \<le> cp" "cp < 0x10000"
    | "0x10000 \<le> cp"
    by linarith
  then show ?thesis
  proof cases
    case 1
    then show ?thesis
      by (simp add: utf8_def)
  next
    case 2
    with lead_bounds(1) [of cp] show ?thesis
      by (simp add: utf8_def continuation_def)
  next
    case 3
    with lead_bounds(2) [of cp] ns show ?thesis
      by (simp add: utf8_def continuation_def three_bytes)
  next
    case 4
    with lead_bounds(3) [OF cp] cp show ?thesis
      by (simp add: utf8_def continuation_def four_bytes)
  qed
qed

lemma utf8_decode_concat:
  "\<forall>cp \<in> set cps. is_scalar cp \<Longrightarrow> utf8_decode (concat (map utf8 cps)) = Some cps"
  by (induction cps) (simp_all add: utf8_decode_utf8)

lemma TextEncoder_small: "\<forall>b \<in> set (TextEncoder_encode str). b < 256"
  using scalar_values_scalar [of str] utf8_small by (auto simp: TextEncoder_encode_def)

lemma utf8_decode_TextEncoder:
  "utf8_decode (TextEncoder_encode str) = Some (scalar_values str)"
  unfolding TextEncoder_encode_def by (rule utf8_decode_concat) (rule scalar_values_scalar)

subsection \<open>Code units read back\<close>

lemma units_single: "units (single u) = [if is_surrogate u then 0xFFFD else u]"
  using unat_code_unit [of u] by (simp add: units_def single_def)

lemma units_paired:
  assumes "is_high u" "is_low v"
  shows "units (paired u v) = [u, v]"
proof -
  from assms have v: "unat v - 0xDC00 < 0x400" and u: "0xD800 \<le> unat u" "0xDC00 \<le> unat v"
    unfolding is_high_def is_low_def by linarith+
  have "paired u v - 0x10000 = (unat u - 0xD800) * 0x400 + (unat v - 0xDC00)"
    by (simp add: paired_def)
  with v have "(paired u v - 0x10000) div 0x400 = unat u - 0xD800"
    "(paired u v - 0x10000) mod 0x400 = unat v - 0xDC00"
    by simp_all
  with u paired_range [OF assms] show ?thesis
    by (simp add: units_def)
qed

lemma concat_units: "concat (map units (scalar_values s)) = toWellFormed s"
  by (induction s rule: scalar_values.induct) (simp_all add: units_single units_paired)

lemma replacement_not_surrogate: "is_surrogate u \<Longrightarrow> u \<noteq> 0xFFFD"
  by (auto simp: is_surrogate_def)

lemma toWellFormed_fixed: "toWellFormed s = s \<longleftrightarrow> isWellFormed s"
proof (induction s rule: isWellFormed.induct)
  case 1
  then show ?case by simp
next
  case (2 u)
  then show ?case
    using replacement_not_surrogate [of u] by auto
next
  case (3 u v r)
  then show ?case
    using replacement_not_surrogate [of u] by auto
qed

lemma decoded_toBase64: "decoded_text (toBase64 str) = Some (toWellFormed str)"
  by (simp add: decoded_text_def toBase64_def b64decode_btoa TextEncoder_small
      utf8_decode_TextEncoder concat_units)

subsection \<open>Lines\<close>

lemma split_units_not_Nil: "split_units sep s \<noteq> []"
  by (induction s) (simp_all split: list.splits)

lemma set_split_units: "\<Union> (set ` set (split_units sep s)) = set s - {sep}"
proof (induction s)
  case Nil
  then show ?case by simp
next
  case (Cons u us)
  show ?case
  proof (cases "split_units sep us")
    case Nil
    with split_units_not_Nil show ?thesis
      by blast
  next
    case (Cons p ps)
    with Cons.IH show ?thesis
      by auto
  qed
qed

lemma trim_units_empty: "trim_units l = [] \<longleftrightarrow> (\<forall>u \<in> set l. is_white u)"
proof
  assume "trim_units l = []"
  then have rest: "\<forall>u \<in> set (dropWhile is_white l). is_white u"
    by (simp add: trim_units_def dropWhile_eq_Nil_conv)
  have "dropWhile is_white l = []"
  proof (rule ccontr)
    assume "dropWhile is_white l \<noteq> []"
    then have "\<not> is_white (hd (dropWhile is_white l))" "hd (dropWhile is_white l) \<in> set (dropWhile is_white l)"
      by (simp_all add: hd_dropWhile)
    with rest show False
      by blast
  qed
  then show "\<forall>u \<in> set l. is_white u"
    by (simp add: dropWhile_eq_Nil_conv)
next
  assume "\<forall>u \<in> set l. is_white u"
  then have "dropWhile is_white l = []"
    by (simp add: dropWhile_eq_Nil_conv)
  then show "trim_units l = []"
    unfolding trim_units_def by (simp only: rev.simps dropWhile.simps)
qed

lemma newline_white: "is_white 0x0A"
  by (simp add: is_white_def)

lemma no_line_iff:
  "filter (\<lambda>l. trim_units l \<noteq> []) (split_units 0x0A T) = [] \<longleftrightarrow>
     (\<forall>u \<in> set T. is_white u)"
proof -
  have "filter (\<lambda>l. trim_units l \<noteq> []) (split_units 0x0A T) = [] \<longleftrightarrow>
          (\<forall>l \<in> set (split_units 0x0A T). \<forall>u \<in> set l. is_white u)"
    by (simp add: filter_empty_conv trim_units_empty)
  also have "\<dots> \<longleftrightarrow> (\<forall>u \<in> \<Union> (set ` set (split_units 0x0A T)). is_white u)"
    by blast
  also have "\<dots> \<longleftrightarrow> (\<forall>u \<in> set T. is_white u)"
    unfolding set_split_units using newline_white by auto
  finally show ?thesis .
qed

lemma parseCSV_None: "parseCSV T = None \<longleftrightarrow> (\<forall>u \<in> set T. is_white u)"
  using no_line_iff [of T] by (simp add: parseCSV_def Let_def)

lemma parseCSV_payload:
  assumes "parseCSV T = Some r"
  shows "base64 r = toBase64 (take 500000 T)" "truncated r \<longleftrightarrow> 500000 < length T"
  using assms by (auto simp: parseCSV_def Let_def split: if_splits)

subsection \<open>The transport\<close>

text \<open>
  What the payload of \<^verbatim>\<open>parseCSV\<close> gives back, for every text with a line that is not
  blank: the first 500,000 code units of the text with U+FFFD for every surrogate that
  is not half of a pair there, and so these code units themselves exactly when they
  are a well-formed string.
\<close>

lemma parseCSV_transport:
  assumes "\<exists>l \<in> set (split_units 0x0A T). trim_units l \<noteq> []"
  shows "\<exists>r. parseCSV T = Some r
           \<and> base64 r = toBase64 (take 500000 T)
           \<and> (truncated r \<longleftrightarrow> 500000 < length T)
           \<and> decoded_text (base64 r) = Some (toWellFormed (take 500000 T))
           \<and> (decoded_text (base64 r) = Some (take 500000 T)
                 \<longleftrightarrow> isWellFormed (take 500000 T))"
proof -
  from assms have "filter (\<lambda>l. trim_units l \<noteq> []) (split_units 0x0A T) \<noteq> []"
    by (simp add: filter_empty_conv)
  then have "parseCSV T \<noteq> None"
    by (simp add: parseCSV_def Let_def)
  then obtain r where r: "parseCSV T = Some r"
    by blast
  note payload = parseCSV_payload [OF r]
  have "decoded_text (base64 r) = Some (toWellFormed (take 500000 T))"
    by (simp only: payload decoded_toBase64)
  with r payload toWellFormed_fixed [of "take 500000 T"] show ?thesis
    by simp
qed

lemma isWellFormed_Cons: "\<not> is_surrogate a \<Longrightarrow> isWellFormed (a # s) = isWellFormed s"
  by (cases s) (auto simp: is_high_def is_surrogate_def)

lemma isWellFormed_replicate:
  "\<not> is_surrogate a \<Longrightarrow> isWellFormed (replicate n a @ s) = isWellFormed s"
  by (induction n) (simp_all add: isWellFormed_Cons)

lemma toWellFormed_Cons: "\<not> is_surrogate a \<Longrightarrow> toWellFormed (a # s) = a # toWellFormed s"
  by (cases s) (auto simp: is_high_def is_surrogate_def)

lemma toWellFormed_replicate:
  "\<not> is_surrogate a \<Longrightarrow> toWellFormed (replicate n a @ s) = replicate n a @ toWellFormed s"
  by (induction n) (simp_all add: toWellFormed_Cons)

lemma split_units_absent: "sep \<notin> set s \<Longrightarrow> split_units sep s = [s]"
  by (induction s) auto

lemma trim_units_inner:
  "s \<noteq> [] \<Longrightarrow> \<not> is_white (hd s) \<Longrightarrow> \<not> is_white (last s) \<Longrightarrow> trim_units s = s"
proof -
  assume s: "s \<noteq> []" "\<not> is_white (hd s)" "\<not> is_white (last s)"
  then have "dropWhile is_white s = s"
    by (cases s) simp_all
  moreover from s have "dropWhile is_white (rev s) = rev s"
    by (cases "rev s") (simp_all add: last_rev [symmetric] hd_rev)
  ultimately show ?thesis
    by (simp add: trim_units_def)
qed

text \<open>
  A well-formed text of 500,001 code units: 499,999 times the letter a, then U+1F600
  (the pair D83D DE00).
\<close>

definition emoji_text :: utf16 where
  "emoji_text = replicate 499999 0x61 @ [0xD83D, 0xDE00]"

lemma letter_a: "\<not> is_surrogate 0x61" "\<not> is_white 0x61"
  by (simp_all add: is_surrogate_def is_white_def)

lemma emoji_lines: "filter (\<lambda>l. trim_units l \<noteq> []) (split_units 0x0A emoji_text) = [emoji_text]"
proof -
  have "split_units 0x0A emoji_text = [emoji_text]"
    by (rule split_units_absent) (simp add: emoji_text_def)
  moreover have "trim_units emoji_text = emoji_text"
    by (rule trim_units_inner) (simp_all add: emoji_text_def is_white_def)
  moreover have "emoji_text \<noteq> []"
    by (simp add: emoji_text_def)
  ultimately show ?thesis
    by simp
qed

lemma emoji_headers:
  "map (\<lambda>h. strip_quotes (trim_units h)) (split_units 0x2C emoji_text) = [emoji_text]"
proof -
  have "split_units 0x2C emoji_text = [emoji_text]"
    by (rule split_units_absent) (simp add: emoji_text_def)
  moreover have "trim_units emoji_text = emoji_text"
    by (rule trim_units_inner) (simp_all add: emoji_text_def is_white_def)
  moreover have "strip_quotes emoji_text = emoji_text"
    by (simp add: strip_quotes_def emoji_text_def)
  ultimately show ?thesis
    by simp
qed

lemma emoji_cut: "take 500000 emoji_text = replicate 499999 0x61 @ [0xD83D]"
  by (simp add: emoji_text_def)

text \<open>
  C9 on this text. The cut falls inside the pair: the payload carries U+FFFD in place of
  the last code unit that was encoded, and does not give the encoded code units back.
\<close>

theorem parseCSV_cuts_surrogate_pair:
  "isWellFormed emoji_text
   \<and> length emoji_text = 500001
   \<and> parseCSV emoji_text =
       Some \<lparr> headers = [emoji_text], rowCount = 0, preview = emoji_text,
              base64 = toBase64 (replicate 499999 0x61 @ [0xD83D]), truncated = True \<rparr>
   \<and> take 500000 emoji_text = replicate 499999 0x61 @ [0xD83D]
   \<and> decoded_text (toBase64 (replicate 499999 0x61 @ [0xD83D])) =
       Some (replicate 499999 0x61 @ [0xFFFD])"
proof -
  have "isWellFormed emoji_text"
    by (simp add: emoji_text_def isWellFormed_replicate letter_a is_high_def is_low_def)
  moreover have "length emoji_text = 500001"
    by (simp add: emoji_text_def)
  moreover have "parseCSV emoji_text =
       Some \<lparr> headers = [emoji_text], rowCount = 0, preview = emoji_text,
              base64 = toBase64 (replicate 499999 0x61 @ [0xD83D]), truncated = True \<rparr>"
    using \<open>length emoji_text = 500001\<close>
    by (simp add: parseCSV_def Let_def emoji_lines emoji_headers emoji_cut)
  moreover have "toWellFormed (replicate 499999 0x61 @ [0xD83D :: code_unit]) =
      replicate 499999 0x61 @ [0xFFFD]"
    by (simp add: toWellFormed_replicate letter_a is_surrogate_def)
  ultimately show ?thesis
    by (simp only: emoji_cut decoded_toBase64 simp_thms)
qed

end
